theory Spec2Isabelle
  imports Complex_Main "HOL-Library.AList"
begin

section \<open>Python values and dictionaries\<close>

text \<open>
  A cell of a game log becomes an \<open>int\<close>, a \<open>float\<close> or stays a \<open>str\<close>
  (\<open>scrape_gamelog\<close>, the \<open>try\<close> around \<open>float(val) if "." in val else int(val)\<close>).
  Python's \<open>int\<close> is unbounded. A \<open>float\<close> is modelled by the rational number it
  denotes and float arithmetic by exact rational arithmetic: rounding error, overflow,
  infinities and NaN of IEEE doubles are outside this model.

  A \<open>dict\<close> is an association list in insertion order: \<open>d[k] = v\<close> is
  \<open>AList.update k v d\<close> (an existing key keeps its place, a new key goes last),
  \<open>d.get(k)\<close> is \<open>map_of d k\<close>, \<open>d.items()\<close> is the list itself.
\<close>

datatype pyval = PInt int | PFloat rat | PStr string

type_synonym ('k, 'v) dict = "('k \<times> 'v) list"

section \<open>Python strings and number parsing\<close>

text \<open>
  Strings are lists of 8-bit characters; the string methods below are Python's on ASCII
  text. Digits and letters outside ASCII (which \<open>str.isdigit\<close>, \<open>int\<close> and
  \<open>str.lower\<close> also know) are outside this model.
\<close>

definition isspace :: "char \<Rightarrow> bool" where
  "isspace c =
     (c \<in> set [CHR '' '', CHR 0x09, CHR 0x0A, CHR 0x0B, CHR 0x0C, CHR 0x0D,
                CHR 0x1C, CHR 0x1D, CHR 0x1E, CHR 0x1F])"

definition strip_chars :: "(char \<Rightarrow> bool) \<Rightarrow> string \<Rightarrow> string" where
  "strip_chars p s = rev (dropWhile p (rev (dropWhile p s)))"

definition strip :: "string \<Rightarrow> string" where
  "strip s = strip_chars isspace s"

definition digit_char :: "char \<Rightarrow> bool" where
  "digit_char c = (c \<in> set ''0123456789'')"

definition isdigit :: "string \<Rightarrow> bool" where
  "isdigit s = (s \<noteq> [] \<and> list_all digit_char s)"

definition lower_char :: "char \<Rightarrow> char" where
  "lower_char c =
     (case map_of (zip ''ABCDEFGHIJKLMNOPQRSTUVWXYZ'' ''abcdefghijklmnopqrstuvwxyz'') c of
        Some l \<Rightarrow> l
      | None \<Rightarrow> c)"

definition lower :: "string \<Rightarrow> string" where
  "lower s = map lower_char s"

fun contains :: "string \<Rightarrow> string \<Rightarrow> bool" where
  "contains sub [] = (sub = [])"
| "contains sub (c # cs) = (take (length sub) (c # cs) = sub \<or> contains sub cs)"

text \<open>\<open>str(n)\<close> for an \<open>int\<close>: the decimal numeral, with a minus sign when negative.\<close>

definition digit_of :: "nat \<Rightarrow> char" where
  "digit_of d = ''0123456789'' ! d"

function str_nat :: "nat \<Rightarrow> string" where
  "str_nat n = (if n < 10 then [digit_of n] else str_nat (n div 10) @ [digit_of (n mod 10)])"
  by pat_completeness auto
termination
  by (relation "measure id") auto

definition str_int :: "int \<Rightarrow> string" where
  "str_int n = (if n < 0 then CHR ''-'' # str_nat (nat (- n)) else str_nat (nat n))"

text \<open>
  \<open>int(s)\<close> on a string: surrounding whitespace is dropped, a sign may lead, and the
  digits may be grouped by single underscores. \<open>None\<close> stands for \<open>ValueError\<close>.
\<close>

fun digits_value :: "nat \<Rightarrow> string \<Rightarrow> nat" where
  "digits_value acc [] = acc"
| "digits_value acc (c # cs) = digits_value (10 * acc + (of_char c - 48)) cs"

fun grouped :: "string \<Rightarrow> bool" where
  "grouped [] = False"
| "grouped [c] = digit_char c"
| "grouped (c # d # cs) =
     (if digit_char c then grouped (d # cs)
      else c = CHR ''_'' \<and> digit_char d \<and> grouped (d # cs))"

definition digitpart :: "string \<Rightarrow> bool" where
  "digitpart s = (case s of [] \<Rightarrow> False | c # cs \<Rightarrow> digit_char c \<and> grouped s)"

definition digitpart_value :: "string \<Rightarrow> nat" where
  "digitpart_value s = digits_value 0 (filter digit_char s)"

definition split_sign :: "string \<Rightarrow> int \<times> string" where
  "split_sign s =
     (case s of
        c # cs \<Rightarrow> if c = CHR ''-'' then (- 1, cs) else if c = CHR ''+'' then (1, cs) else (1, s)
      | [] \<Rightarrow> (1, s))"

definition py_int :: "string \<Rightarrow> int option" where
  "py_int s =
     (let (sign, body) = split_sign (strip s)
      in if digitpart body then Some (sign * int (digitpart_value body)) else None)"

text \<open>
  \<open>float(s)\<close> on a string that holds a decimal point: sign, integer part, point,
  fraction, and an optional exponent. The value is the rational the literal denotes
  (the source's is the nearest double; a literal too large for a double is \<open>inf\<close> there).
\<close>

definition py_float :: "string \<Rightarrow> rat option" where
  "py_float s =
     (let (sign, body) = split_sign (strip s);
          mant = takeWhile (\<lambda>c. c \<noteq> CHR ''e'' \<and> c \<noteq> CHR ''E'') body;
          expo = dropWhile (\<lambda>c. c \<noteq> CHR ''e'' \<and> c \<noteq> CHR ''E'') body;
          ip = takeWhile (\<lambda>c. c \<noteq> CHR ''.'') mant;
          fp = drop 1 (dropWhile (\<lambda>c. c \<noteq> CHR ''.'') mant);
          (esign, ebody) = split_sign (drop 1 expo);
          m = of_nat (digits_value 0 (filter digit_char (ip @ fp)))
                / 10 ^ length (filter digit_char fp)
      in if CHR ''.'' \<in> set mant \<and> (ip \<noteq> [] \<or> fp \<noteq> [])
            \<and> (ip = [] \<or> digitpart ip) \<and> (fp = [] \<or> digitpart fp)
            \<and> (expo = [] \<or> digitpart ebody)
         then Some (of_int sign * m *
                (if expo = [] then 1
                 else if esign < 0 then 1 / 10 ^ digitpart_value ebody
                 else 10 ^ digitpart_value ebody))
         else None)"

text \<open>
  The coercion of a cell in \<open>scrape_gamelog\<close>:
  \<open>try: float(val) if "." in val else int(val)  except ValueError: val\<close>.
\<close>

definition coerce :: "string \<Rightarrow> pyval" where
  "coerce val =
     (if CHR ''.'' \<in> set val
      then (case py_float val of Some r \<Rightarrow> PFloat r | None \<Rightarrow> PStr val)
      else (case py_int val of Some n \<Rightarrow> PInt n | None \<Rightarrow> PStr val))"

text \<open>Truthiness (\<open>not v\<close>, \<open>a or b\<close>) and \<open>str(v).isdigit()\<close> of a value; the
  \<open>repr\<close> of a float always holds a point, an exponent, \<open>inf\<close> or \<open>nan\<close>.\<close>

fun truthy :: "pyval \<Rightarrow> bool" where
  "truthy (PInt n) = (n \<noteq> 0)"
| "truthy (PFloat r) = (r \<noteq> 0)"
| "truthy (PStr s) = (s \<noteq> [])"

fun str_isdigit :: "pyval \<Rightarrow> bool" where
  "str_isdigit (PInt n) = isdigit (str_int n)"
| "str_isdigit (PFloat r) = False"
| "str_isdigit (PStr s) = isdigit s"

text \<open>\<open>int(v)\<close> on a value; \<open>None\<close> stands for \<open>ValueError\<close>.\<close>

fun int_of :: "pyval \<Rightarrow> int option" where
  "int_of (PInt n) = Some n"
| "int_of (PFloat r) = Some (if 0 \<le> r then \<lfloor>r\<rfloor> else \<lceil>r\<rceil>)"
| "int_of (PStr s) = py_int s"

section \<open>ScoringEngine: \<open>calc_fantasy\<close>\<close>

text \<open>
  \<open>round(x, 2)\<close> on a float rounds the exact value of \<open>x\<close> to the nearest multiple of
  \<open>0.01\<close>, a tie going to the even hundredth.
\<close>

definition round_half_even :: "rat \<Rightarrow> int" where
  "round_half_even x =
     (let f = \<lfloor>x\<rfloor>; d = x - of_int f
      in if d < 1 / 2 then f else if 1 / 2 < d then f + 1
         else if even f then f else f + 1)"

definition py_round2 :: "rat \<Rightarrow> rat" where
  "py_round2 x = of_int (round_half_even (x * 100)) / 100"

text \<open>
  The inner function \<open>g\<close> of \<open>calc_fantasy\<close>:
  \<open>val = stats.get(key, 0); return val if isinstance(val, (int, float)) else 0\<close>.
\<close>

definition calc_fantasy_g :: "(string, pyval) dict \<Rightarrow> string \<Rightarrow> rat" where
  "calc_fantasy_g stats key =
     (case map_of stats key of
        None \<Rightarrow> 0
      | Some (PInt i) \<Rightarrow> of_int i
      | Some (PFloat r) \<Rightarrow> r
      | Some (PStr s) \<Rightarrow> 0)"

record fantasy =
  standard :: rat
  half_ppr :: rat
  ppr :: rat

definition calc_fantasy :: "(string, pyval) dict \<Rightarrow> fantasy" where
  "calc_fantasy stats =
     (let pass_yds = calc_fantasy_g stats ''Pass Yds'';
          pass_td = calc_fantasy_g stats ''Pass TD'';
          interceptions = calc_fantasy_g stats ''Int'';
          rush_yds = calc_fantasy_g stats ''Rush Yds'';
          rush_td = calc_fantasy_g stats ''Rush TD'';
          rec = calc_fantasy_g stats ''Rec'';
          rec_yds = calc_fantasy_g stats ''Rec Yds'';
          rec_td = calc_fantasy_g stats ''Rec TD'';
          fumbles_lost = calc_fantasy_g stats ''Fumbles Lost'';
          two_pt = calc_fantasy_g stats ''2PM'';
          std = (pass_yds / 25) + (pass_td * 4) - (interceptions * 2)
                + (rush_yds / 10) + (rush_td * 6)
                + (rec_yds / 10) + (rec_td * 6)
                + (two_pt * 2) - (fumbles_lost * 2);
          half = std + rec * (1 / 2);
          ppr' = std + rec * 1
      in \<lparr>standard = py_round2 std, half_ppr = py_round2 half, ppr = py_round2 ppr'\<rparr>)"


section \<open>Fetched pages\<close>

text \<open>
  What the code reads of a page parsed by BeautifulSoup. A header cell \<open>th\<close> has its
  text (\<open>get_text(strip=True)\<close>) and the attributes \<open>colspan\<close>, \<open>data-stat\<close> and
  \<open>data-tip\<close>; a body row has its \<open>class\<close> attribute and the texts of its cells; a
  table has an optional \<open>thead\<close> (its rows of \<open>th\<close> cells) and an optional \<open>tbody\<close>.
\<close>

datatype error = HTTPError | AttributeError | IndexError | ValueError | KeyError
  | UnboundLocalError

record th =
  th_text :: string
  colspan :: "string option"
  data_stat :: "string option"
  data_tip :: "string option"

record tr =
  tr_class :: "string list option"
  tr_cells :: "string list"

record table =
  thead :: "th list list option"
  tbody :: "tr list option"

text \<open>
  The navigation of a player page, as the three lookups of \<open>scrape_player\<close> see it:
  \<open>div#inner_nav\<close>, its \<open>span\<close> "Game Logs", the next \<open>ul\<close> and the links
  (\<open>href\<close>, text) with an \<open>href\<close> in it.
\<close>

datatype nav = NoNav | NoGameLogHeader | NoList | Links "(string \<times> string) list"

text \<open>
  A row of the yearly fantasy table: its \<open>class\<close>, the text of the cell
  \<open>td[data-stat=fantasy_pos]\<close>, and the cell \<open>td[data-stat=player]\<close> with its attribute
  \<open>data-append-csv\<close> and its first link \<open>a\<close> (the attribute \<open>href\<close>, the text).
\<close>

record name_cell =
  append_csv :: "string option"
  anchor :: "(string option \<times> string) option"

record fantasy_row =
  fr_class :: "string list option"
  pos_cell :: "string option"
  player_cell :: "name_cell option"

record soup =
  stats_table :: "table option"
  fantasy_table :: "fantasy_row list option option"
  inner_nav :: nav

text \<open>
  \<open>fetch_soup(url)\<close> raises (\<open>requests.get\<close>, \<open>raise_for_status\<close>) or returns the parsed
  page. The site is a function from URLs to that outcome, fixed during a run.
\<close>

type_synonym web = "string \<Rightarrow> error + soup"

definition BASE_URL :: string where
  "BASE_URL = ''https://www.pro-football-reference.com''"

definition START_YEAR :: int where "START_YEAR = 2010"

definition END_YEAR :: int where "END_YEAR = 2024"

section \<open>SchemaRegistry: \<open>get_table_metadata\<close>\<close>

record info =
  unique :: string
  tip :: string

type_synonym metadata = "(string \<times> string, info) dict"

text \<open>A line of the schema log: \<open>f"{cat},{col}:{unique} | {tip}\n"\<close>.\<close>

definition log_line :: "string \<Rightarrow> string \<Rightarrow> string \<Rightarrow> string \<Rightarrow> string" where
  "log_line cat col uniq tp = cat @ '','' @ col @ '':'' @ uniq @ '' | '' @ tp"

text \<open>\<open>int(th.get("colspan", 1))\<close>; \<open>[cat] * colspan\<close> is empty for a count below one.\<close>

definition colspan_of :: "th \<Rightarrow> error + nat" where
  "colspan_of c =
     (case colspan c of
        None \<Rightarrow> Inr 1
      | Some a \<Rightarrow> (case py_int a of None \<Rightarrow> Inl ValueError | Some n \<Rightarrow> Inr (nat n)))"

fun extend_spans :: "string list \<Rightarrow> th list \<Rightarrow> error + string list" where
  "extend_spans cat_map [] = Inr cat_map"
| "extend_spans cat_map (c # cs) =
     (case colspan_of c of
        Inl e \<Rightarrow> Inl e
      | Inr n \<Rightarrow> extend_spans (cat_map @ replicate n (th_text c)) cs)"

definition tip_of :: "th \<Rightarrow> string" where
  "tip_of c = strip (case data_tip c of None \<Rightarrow> [] | Some t \<Rightarrow> t)"

definition cat_at :: "string list \<Rightarrow> nat \<Rightarrow> string" where
  "cat_at cat_map i = (if i < length cat_map then cat_map ! i else [])"

text \<open>
  The loop \<open>for i, th in enumerate(bottom)\<close> of \<open>get_table_metadata\<close>; the three lists
  \<open>categories\<close>, \<open>headers\<close>, \<open>tips\<close> are kept zipped, as the next loop reads them.
\<close>

definition header_triples :: "string list \<Rightarrow> th list \<Rightarrow> (string \<times> string \<times> string) list" where
  "header_triples cat_map bottom =
     map (\<lambda>(i, c). (cat_at cat_map i, th_text c, tip_of c)) (enumerate 0 bottom)"

text \<open>
  The loop that builds \<open>meta\<close>: \<open>name_count\<close> counts the column labels seen so far.
\<close>

definition unique_name :: "(string, nat) dict \<Rightarrow> string \<Rightarrow> string \<Rightarrow> string" where
  "unique_name name_count cat col =
     (if map_of name_count col \<noteq> None then lower (take 2 cat) @ col else col)"

definition count_name :: "(string, nat) dict \<Rightarrow> string \<Rightarrow> (string, nat) dict" where
  "count_name name_count base =
     (case map_of name_count base of
        Some n \<Rightarrow> AList.update base (n + 1) name_count
      | None \<Rightarrow> AList.update base 1 name_count)"

fun build_meta :: "(string, nat) dict \<Rightarrow> metadata \<Rightarrow> (string \<times> string \<times> string) list \<Rightarrow> metadata" where
  "build_meta name_count meta [] = meta"
| "build_meta name_count meta ((cat, col, tp) # rest) =
     build_meta (count_name name_count col)
       (AList.update (cat, col) \<lparr>unique = unique_name name_count cat col, tip = tp\<rparr> meta) rest"

definition meta_lines :: "metadata \<Rightarrow> string list" where
  "meta_lines meta = map (\<lambda>((cat, col), i). log_line cat col (unique i) (tip i)) meta"

text \<open>
  \<open>get_table_metadata(url, filename)\<close>. The schema log (the file \<open>METADATA_FILE\<close>) is
  the list of the lines written to it; opening it with \<open>"w"\<close> empties it. \<open>to_file\<close>
  says whether \<open>filename\<close> is given (\<open>METADATA_FILE\<close>, its default) or \<open>None\<close>.
\<close>

definition table_triples :: "table \<Rightarrow> error + (string \<times> string \<times> string) list" where
  "table_triples t =
     (case thead t of
        None \<Rightarrow> Inr []
      | Some rows \<Rightarrow>
          (case rows of
             top_row # bottom # _ \<Rightarrow>
               (case extend_spans [] top_row of
                  Inl e \<Rightarrow> Inl e
                | Inr cat_map \<Rightarrow> Inr (header_triples cat_map bottom))
           | _ \<Rightarrow> Inr []))"

definition get_table_metadata :: "web \<Rightarrow> string \<Rightarrow> bool \<Rightarrow> string list \<Rightarrow> string list \<times> (error + metadata)" where
  "get_table_metadata w url to_file slog =
     (case w url of
        Inl e \<Rightarrow> (slog, Inl e)
      | Inr sp \<Rightarrow>
          (case stats_table sp of
             None \<Rightarrow> (slog, Inr [])
           | Some t \<Rightarrow>
               (case table_triples t of
                  Inl e \<Rightarrow> (slog, Inl e)
                | Inr triples \<Rightarrow>
                    (let meta = build_meta [] [] triples
                     in (if to_file then meta_lines meta else slog, Inr meta)))))"

section \<open>RecordNormalizer: \<open>scrape_gamelog\<close>\<close>

record game =
  game_week :: int
  game_date :: pyval
  game_team :: pyval
  game_opponent :: pyval
  game_home :: bool
  game_stats :: "(string, pyval) dict"
  game_fantasy :: fantasy

text \<open>The category rows \<open>thead.find_all("tr")[:-1]\<close>, flattened by their spans.\<close>

fun over_headers_of :: "string list \<Rightarrow> th list list \<Rightarrow> error + string list" where
  "over_headers_of acc [] = Inr acc"
| "over_headers_of acc (r # rs) =
     (case extend_spans acc r of
        Inl e \<Rightarrow> Inl e
      | Inr acc' \<Rightarrow> over_headers_of acc' rs)"

text \<open>The loop over the last header row: a \<open>ranker\<close> column is skipped, and keeps its index.\<close>

definition col_pairs_of :: "string list \<Rightarrow> th list \<Rightarrow> (string \<times> string \<times> string) list" where
  "col_pairs_of over_headers bottom =
     map (\<lambda>(idx, c). (cat_at over_headers idx, th_text c, tip_of c))
       (filter (\<lambda>(idx, c). data_stat c \<noteq> Some ''ranker'') (enumerate 0 bottom))"

text \<open>\<open>f"{cat}_{col}".strip("_")\<close>\<close>

definition fallback_name :: "string \<Rightarrow> string \<Rightarrow> string" where
  "fallback_name cat col = strip_chars (\<lambda>c. c = CHR ''_'') (cat @ ''_'' @ col)"

text \<open>
  The loop that maps the header pairs to canonical names. On a pair that is not a key
  of \<open>metadata_map\<close> it appends a line to the schema log (the file opened with \<open>"a"\<close>);
  \<open>metadata_map\<close> itself is only read.
\<close>

fun canonical_headers ::
  "metadata \<Rightarrow> (string \<times> string \<times> string) list \<Rightarrow> string list \<Rightarrow> string list
   \<Rightarrow> string list \<times> string list" where
  "canonical_headers metadata_map [] headers slog = (headers, slog)"
| "canonical_headers metadata_map ((cat, col, tp) # rest) headers slog =
     (case map_of metadata_map (cat, col) of
        Some i \<Rightarrow> canonical_headers metadata_map rest (headers @ [unique i]) slog
      | None \<Rightarrow>
          canonical_headers metadata_map rest (headers @ [fallback_name cat col])
            (slog @ [log_line cat col (fallback_name cat col) tp]))"

text \<open>
  The cells after the first, paired index-wise with \<open>headers\<close>; a cell at an index past
  the end of \<open>headers\<close> is skipped, which is where \<open>zip\<close> stops.
\<close>

definition assign_cells :: "string list \<Rightarrow> string list \<Rightarrow> (string, pyval) dict" where
  "assign_cells headers cells1 =
     fold (\<lambda>(header, cell). AList.update header (coerce (strip cell))) (zip headers cells1) []"

text \<open>\<open>for info in metadata_map.values(): if uniq not in game_data: game_data[uniq] = 0\<close>\<close>

definition fill_missing :: "metadata \<Rightarrow> (string, pyval) dict \<Rightarrow> (string, pyval) dict" where
  "fill_missing metadata_map game_data =
     fold (\<lambda>(key, i) gd. if map_of gd (unique i) = None
                             then AList.update (unique i) (PInt 0) gd else gd)
       metadata_map game_data"

definition has_thead_class :: "string list option \<Rightarrow> bool" where
  "has_thead_class cls = (case cls of None \<Rightarrow> False | Some cs \<Rightarrow> ''thead'' \<in> set cs)"

definition get_or :: "(string, pyval) dict \<Rightarrow> string \<Rightarrow> pyval \<Rightarrow> pyval" where
  "get_or d k dflt = (case map_of d k of None \<Rightarrow> dflt | Some v \<Rightarrow> v)"

text \<open>\<open>game_data.get("Tm") or game_data.get("Team") or ""\<close>\<close>

definition team_of :: "(string, pyval) dict \<Rightarrow> pyval" where
  "team_of game_data =
     (case map_of game_data ''Tm'' of
        Some v \<Rightarrow> if truthy v then v else
          (case map_of game_data ''Team'' of
             Some v' \<Rightarrow> if truthy v' then v' else PStr []
           | None \<Rightarrow> PStr [])
      | None \<Rightarrow>
          (case map_of game_data ''Team'' of
             Some v' \<Rightarrow> if truthy v' then v' else PStr []
           | None \<Rightarrow> PStr []))"

text \<open>One pass of the loop over the body rows: \<open>Inr None\<close> is \<open>continue\<close>.\<close>

definition row_game :: "string list \<Rightarrow> metadata \<Rightarrow> tr \<Rightarrow> error + game option" where
  "row_game headers metadata_map row =
     (if has_thead_class (tr_class row) then Inr None
      else
        (case tr_cells row of
           [] \<Rightarrow> Inr None
         | c0 # cells1 \<Rightarrow>
             if \<not> isdigit (strip c0) then Inr None
             else
               (let game_data = fill_missing metadata_map (assign_cells headers cells1)
                in (case map_of game_data ''Week'' of
                      None \<Rightarrow> Inr None
                    | Some week_val \<Rightarrow>
                        if \<not> truthy week_val \<or> \<not> str_isdigit week_val then Inr None
                        else
                          (case int_of week_val of
                             None \<Rightarrow> Inl ValueError
                           | Some wk \<Rightarrow>
                               Inr (Some \<lparr>game_week = wk,
                                 game_date = get_or game_data ''Date'' (PStr []),
                                 game_team = team_of game_data,
                                 game_opponent = get_or game_data ''Opp'' (PStr []),
                                 game_home = (get_or game_data ''game_location'' (PStr []) \<noteq> PStr ''@''),
                                 game_stats = game_data,
                                 game_fantasy = calc_fantasy game_data\<rparr>))))))"

fun extract_rows :: "string list \<Rightarrow> metadata \<Rightarrow> game list \<Rightarrow> tr list \<Rightarrow> error + game list" where
  "extract_rows headers metadata_map games [] = Inr games"
| "extract_rows headers metadata_map games (row # rows) =
     (case row_game headers metadata_map row of
        Inl e \<Rightarrow> Inl e
      | Inr None \<Rightarrow> extract_rows headers metadata_map games rows
      | Inr (Some g) \<Rightarrow> extract_rows headers metadata_map (games @ [g]) rows)"

text \<open>
  \<open>scrape_gamelog(url, metadata_map)\<close>: the schema log goes in and comes out; the result
  is the exception raised, \<open>None\<close> (no stats table) or the games of \<open>{"games": games}\<close>.
  \<open>table.find("thead")\<close> and \<open>table.tbody\<close> that are missing raise \<open>AttributeError\<close> at
  their first use, and \<open>[-1]\<close> on a \<open>thead\<close> without rows raises \<open>IndexError\<close>.
\<close>

definition scrape_gamelog ::
  "web \<Rightarrow> string \<Rightarrow> metadata \<Rightarrow> string list \<Rightarrow> string list \<times> (error + game list option)" where
  "scrape_gamelog w url metadata_map slog =
     (case w url of
        Inl e \<Rightarrow> (slog, Inl e)
      | Inr sp \<Rightarrow>
          (case stats_table sp of
             None \<Rightarrow> (slog, Inr None)
           | Some t \<Rightarrow>
               (case thead t of
                  None \<Rightarrow> (slog, Inl AttributeError)
                | Some hrows \<Rightarrow>
                    (case over_headers_of [] (butlast hrows) of
                       Inl e \<Rightarrow> (slog, Inl e)
                     | Inr over_headers \<Rightarrow>
                         if hrows = [] then (slog, Inl IndexError)
                         else
                           (let col_pairs = col_pairs_of over_headers (last hrows);
                                (headers, slog') = canonical_headers metadata_map col_pairs [] slog
                            in (case tbody t of
                                  None \<Rightarrow> (slog', Inl AttributeError)
                                | Some rows \<Rightarrow>
                                    (case extract_rows headers metadata_map [] rows of
                                       Inl e \<Rightarrow> (slog', Inl e)
                                     | Inr games \<Rightarrow> (slog', Inr (Some games)))))))))"

section \<open>IngestionOrchestrator\<close>

subsection \<open>\<open>scrape_player\<close>\<close>

record player_data =
  pd_name :: string
  pd_id :: string
  pd_years :: "(string, game list) dict"

text \<open>
  The state a call works on: \<open>seen_players\<close>, the module's global set of the process;
  the schema log; and the player files written by \<open>json.dump\<close>, in the order of the
  writes (\<open>(pid, pdata)\<close> is the file \<open>data/{pid}.json\<close>; a later write of the same
  \<open>pid\<close> replaces the file).
\<close>

record state =
  seen_players :: "string set"
  schema_log :: "string list"
  dumped :: "(string \<times> player_data) list"

text \<open>The loop that collects \<open>year_links\<close> from the links of the game log list.\<close>

fun year_links_of :: "(int, string) dict \<Rightarrow> (string \<times> string) list \<Rightarrow> error + (int, string) dict" where
  "year_links_of year_links [] = Inr year_links"
| "year_links_of year_links ((href, text) # links) =
     (if \<not> contains ''/gamelog/'' href then year_links_of year_links links
      else if \<not> isdigit (strip text) then year_links_of year_links links
      else
        (case py_int (strip text) of
           None \<Rightarrow> Inl ValueError
         | Some year \<Rightarrow>
             if year < START_YEAR \<or> year > END_YEAR then year_links_of year_links links
             else year_links_of (AList.update year (BASE_URL @ href) year_links) links))"

text \<open>
  The loop \<open>for year, year_url in sorted(year_links.items())\<close>: an exception of
  \<open>scrape_gamelog\<close> leaves the loop and the function; \<open>None\<close> skips the year.
\<close>

fun scrape_years ::
  "web \<Rightarrow> metadata \<Rightarrow> (int \<times> string) list \<Rightarrow> (string, game list) dict \<Rightarrow> string list
   \<Rightarrow> string list \<times> (error + (string, game list) dict)" where
  "scrape_years w metadata_map [] years slog = (slog, Inr years)"
| "scrape_years w metadata_map ((year, year_url) # rest) years slog =
     (case scrape_gamelog w year_url metadata_map slog of
        (slog', Inl e) \<Rightarrow> (slog', Inl e)
      | (slog', Inr None) \<Rightarrow> scrape_years w metadata_map rest years slog'
      | (slog', Inr (Some games)) \<Rightarrow>
          scrape_years w metadata_map rest (AList.update (str_int year) games years) slog')"

definition scrape_player ::
  "web \<Rightarrow> string \<Rightarrow> string \<Rightarrow> string \<Rightarrow> metadata \<Rightarrow> state
   \<Rightarrow> state \<times> (error + player_data option)" where
  "scrape_player w player_id player_name player_url metadata_map st =
     (if player_id \<in> seen_players st then (st, Inr None)
      else
        (let st1 = st\<lparr>seen_players := insert player_id (seen_players st)\<rparr>;
             data = \<lparr>pd_name = player_name, pd_id = player_id, pd_years = []\<rparr>
         in (case w player_url of
               Inl e \<Rightarrow> (st1, Inl e)
             | Inr sp \<Rightarrow>
                 (case inner_nav sp of
                    NoNav \<Rightarrow> (st1, Inr (Some data))
                  | NoGameLogHeader \<Rightarrow> (st1, Inr (Some data))
                  | NoList \<Rightarrow> (st1, Inr (Some data))
                  | Links links \<Rightarrow>
                      (case year_links_of [] links of
                         Inl e \<Rightarrow> (st1, Inl e)
                       | Inr year_links \<Rightarrow>
                           (case scrape_years w metadata_map (sort_key fst year_links) []
                                   (schema_log st1) of
                              (slog', Inl e) \<Rightarrow> (st1\<lparr>schema_log := slog'\<rparr>, Inl e)
                            | (slog', Inr years) \<Rightarrow>
                                (st1\<lparr>schema_log := slog'\<rparr>,
                                 Inr (Some (data\<lparr>pd_years := years\<rparr>)))))))))"

subsection \<open>\<open>scrape_wrapper\<close> and the pool\<close>

type_synonym task = "string \<times> string \<times> string \<times> metadata"

text \<open>
  \<open>scrape_wrapper(args)\<close>: \<open>except Exception\<close> turns every exception of \<open>scrape_player\<close>
  into the result \<open>None\<close>; what the call changed before it raised stays changed.
\<close>

definition scrape_wrapper :: "web \<Rightarrow> task \<Rightarrow> state \<Rightarrow> state \<times> player_data option" where
  "scrape_wrapper w args st =
     (case args of (pid, name, url, metadata_map) \<Rightarrow>
        (case scrape_player w pid name url metadata_map st of
           (st', Inl e) \<Rightarrow> (st', None)
         | (st', Inr None) \<Rightarrow> (st', None)
         | (st', Inr (Some pdata)) \<Rightarrow> (st'\<lparr>dumped := dumped st' @ [(pid, pdata)]\<rparr>, Some pdata)))"

text \<open>
  \<open>pool.map(scrape_wrapper, all_players)\<close> on a \<open>multiprocessing.Pool\<close>: every worker
  is a process of its own, with its own copy of the module's global \<open>seen_players\<close>
  (taken from the parent when the pool starts); the files are shared. Which worker
  takes which task is the pool's choice, so each task comes paired with the index of
  its worker. The tasks are run one after the other in the order of the list: the
  workers share nothing but the files, and the order only decides the order of the
  writes.
\<close>

record pool =
  pool_seen :: "nat \<Rightarrow> string set"
  pool_log :: "string list"
  pool_dumped :: "(string \<times> player_data) list"

fun pool_map :: "web \<Rightarrow> pool \<Rightarrow> (nat \<times> task) list \<Rightarrow> pool \<times> player_data option list" where
  "pool_map w p [] = (p, [])"
| "pool_map w p ((k, t) # rest) =
     (case scrape_wrapper w t
             \<lparr>seen_players = pool_seen p k, schema_log = pool_log p, dumped = pool_dumped p\<rparr> of
        (st', r) \<Rightarrow>
          (case pool_map w
                  \<lparr>pool_seen = (pool_seen p)(k := seen_players st'),
                   pool_log = schema_log st', pool_dumped = dumped st'\<rparr> rest of
             (p', rs) \<Rightarrow> (p', r # rs)))"

subsection \<open>\<open>get_players_for_year\<close>\<close>

definition fantasy_url :: "int \<Rightarrow> string" where
  "fantasy_url year = BASE_URL @ ''/years/'' @ str_int year @ ''/fantasy.htm''"

text \<open>
  The loop over the rows of the fantasy table. \<open>name_cell["data-append-csv"]\<close> and
  \<open>name_cell.a["href"]\<close> raise \<open>KeyError\<close> on a missing attribute.
\<close>

fun players_of_rows ::
  "(string \<times> string \<times> string) list \<Rightarrow> fantasy_row list
   \<Rightarrow> error + (string \<times> string \<times> string) list" where
  "players_of_rows players [] = Inr players"
| "players_of_rows players (row # rows) =
     (if has_thead_class (fr_class row) then players_of_rows players rows
      else
        (case player_cell row of
           None \<Rightarrow> players_of_rows players rows
         | Some name_cell \<Rightarrow>
             (case anchor name_cell of
                None \<Rightarrow> players_of_rows players rows
              | Some (href, text) \<Rightarrow>
                  (case append_csv name_cell of
                     None \<Rightarrow> Inl KeyError
                   | Some player_id \<Rightarrow>
                       (case href of
                          None \<Rightarrow> Inl KeyError
                        | Some h \<Rightarrow>
                            players_of_rows
                              (players @ [(player_id, strip text, BASE_URL @ h)]) rows)))))"

definition get_players_for_year :: "web \<Rightarrow> int \<Rightarrow> error + (string \<times> string \<times> string) list" where
  "get_players_for_year w year =
     (case w (fantasy_url year) of
        Inl e \<Rightarrow> Inl e
      | Inr sp \<Rightarrow>
          (case fantasy_table sp of
             None \<Rightarrow> Inl AttributeError
           | Some None \<Rightarrow> Inl AttributeError
           | Some (Some rows) \<Rightarrow> players_of_rows [] rows))"

subsection \<open>Seeding: \<open>get_table_metadata_for_positions\<close>\<close>

text \<open>\<open>merged.update(m)\<close>\<close>

definition dict_update :: "('k, 'v) dict \<Rightarrow> ('k, 'v) dict \<Rightarrow> ('k, 'v) dict" where
  "dict_update d m = fold (\<lambda>(k, v). AList.update k v) m d"

text \<open>
  The loop over the rows of the fantasy table. Its state is \<open>found\<close> and the local
  variable \<open>meta\<close>, unbound (\<open>None\<close>) until the first assignment. The result says
  whether the loop went on or left by \<open>break\<close>, which is the same to the caller.
  \<open>get_table_metadata\<close> is called with \<open>filename=None\<close> and writes nothing.
\<close>

fun find_positions ::
  "web \<Rightarrow> string list \<Rightarrow> (string, metadata) dict \<Rightarrow> metadata option \<Rightarrow> fantasy_row list
   \<Rightarrow> error + (string, metadata) dict \<times> metadata option" where
  "find_positions w positions found meta [] = Inr (found, meta)"
| "find_positions w positions found meta (row # rows) =
     (if has_thead_class (fr_class row) then find_positions w positions found meta rows
      else
        (case (pos_cell row, player_cell row) of
           (Some pos_text, Some name_cell) \<Rightarrow>
             (case anchor name_cell of
                None \<Rightarrow> find_positions w positions found meta rows
              | Some (href, text) \<Rightarrow>
                  if strip pos_text \<in> set positions \<and> map_of found (strip pos_text) = None
                  then
                    (case href of
                       None \<Rightarrow> Inl KeyError
                     | Some h \<Rightarrow>
                         (case w (BASE_URL @ h) of
                            Inl e \<Rightarrow> Inl e
                          | Inr player_soup \<Rightarrow>
                              (case inner_nav player_soup of
                                 Links ((first_href, first_text) # _) \<Rightarrow>
                                   (case snd (get_table_metadata w (BASE_URL @ first_href) False []) of
                                      Inl e \<Rightarrow> Inl e
                                    | Inr meta' \<Rightarrow>
                                        (let found' = AList.update (strip pos_text) meta' found
                                         in if length found' = length positions
                                            then Inr (found', Some meta')
                                            else find_positions w positions found' (Some meta') rows))
                               | _ \<Rightarrow> find_positions w positions found meta rows)))
                  else find_positions w positions found meta rows)
         | _ \<Rightarrow> find_positions w positions found meta rows))"

text \<open>
  After the loop \<open>merged\<close> collects every dictionary of \<open>found\<close>; the file is then
  opened with \<open>"w"\<close> and written from \<open>meta.items()\<close>, the variable of the loop. With no
  position found \<open>meta\<close> is unbound, and reading it raises after the file was emptied.
\<close>

definition get_table_metadata_for_positions ::
  "web \<Rightarrow> int \<Rightarrow> string list \<Rightarrow> string list \<Rightarrow> string list \<times> (error + metadata)" where
  "get_table_metadata_for_positions w year positions slog =
     (case w (fantasy_url year) of
        Inl e \<Rightarrow> (slog, Inl e)
      | Inr sp \<Rightarrow>
          (case fantasy_table sp of
             None \<Rightarrow> (slog, Inr [])
           | Some None \<Rightarrow> (slog, Inl AttributeError)
           | Some (Some rows) \<Rightarrow>
               (case find_positions w positions [] None rows of
                  Inl e \<Rightarrow> (slog, Inl e)
                | Inr (found, meta) \<Rightarrow>
                    (let merged = fold (\<lambda>(pos, m) acc. dict_update acc m) found []
                     in (case meta of
                           None \<Rightarrow> ([], Inl UnboundLocalError)
                         | Some mt \<Rightarrow> (meta_lines mt, Inr merged))))))"

definition POSITIONS :: "string list" where
  "POSITIONS = [''QB'', ''RB'', ''WR'', ''TE'']"

subsection \<open>The two drivers\<close>

text \<open>
  \<open>main\<close> of \<open>scrape_parallel.py\<close>. Its loop \<open>for pid, name, _, url in players\<close>
  unpacks into four names the triples \<open>(player_id, player_name, player_link)\<close> that
  \<open>get_players_for_year\<close> returns, which raises \<open>ValueError\<close> at the first player.
\<close>

definition unpack4 :: "string \<times> string \<times> string \<Rightarrow> error + string \<times> string \<times> string \<times> string" where
  "unpack4 player = Inl ValueError"

fun append_players :: "metadata \<Rightarrow> task list \<Rightarrow> (string \<times> string \<times> string) list \<Rightarrow> error + task list" where
  "append_players metadata_map all_players [] = Inr all_players"
| "append_players metadata_map all_players (player # players) =
     (case unpack4 player of
        Inl e \<Rightarrow> Inl e
      | Inr (pid, name, x, url) \<Rightarrow>
          append_players metadata_map (all_players @ [(pid, name, url, metadata_map)]) players)"

fun gather_players :: "web \<Rightarrow> metadata \<Rightarrow> task list \<Rightarrow> int list \<Rightarrow> error + task list" where
  "gather_players w metadata_map all_players [] = Inr all_players"
| "gather_players w metadata_map all_players (year # years) =
     (case get_players_for_year w year of
        Inl e \<Rightarrow> Inl e
      | Inr players \<Rightarrow>
          (case append_players metadata_map all_players players of
             Inl e \<Rightarrow> Inl e
           | Inr all_players' \<Rightarrow> gather_players w metadata_map all_players' years))"

text \<open>
  \<open>cpus\<close> is \<open>cpu_count()\<close>; \<open>choice i\<close> is the worker the pool gives the \<open>i\<close>-th task to.
\<close>

definition main :: "web \<Rightarrow> nat \<Rightarrow> (nat \<Rightarrow> nat) \<Rightarrow> state \<Rightarrow> state \<times> (error + player_data option list)" where
  "main w cpus choice st =
     (case get_table_metadata_for_positions w START_YEAR POSITIONS (schema_log st) of
        (slog, Inl e) \<Rightarrow> (st\<lparr>schema_log := slog\<rparr>, Inl e)
      | (slog, Inr metadata_map) \<Rightarrow>
          (case gather_players w metadata_map [] [START_YEAR..END_YEAR] of
             Inl e \<Rightarrow> (st\<lparr>schema_log := slog\<rparr>, Inl e)
           | Inr all_players \<Rightarrow>
               (let workers = min cpus 8
                in if workers = 0 then (st\<lparr>schema_log := slog\<rparr>, Inl ValueError)
                   else
                     (case pool_map w
                             \<lparr>pool_seen = (\<lambda>k. seen_players st), pool_log = slog,
                              pool_dumped = dumped st\<rparr>
                             (zip (map (\<lambda>i. choice i mod workers) [0..<length all_players])
                                all_players) of
                        (p, results) \<Rightarrow>
                          (st\<lparr>schema_log := pool_log p, dumped := pool_dumped p\<rparr>,
                           Inr results)))))"

text \<open>
  The script of \<open>fantasy_data_scrape.py\<close> (\<open>if __name__ == "__main__"\<close>): one process,
  no \<open>try\<close>. An exception of \<open>scrape_player\<close> ends the run.
\<close>

fun scrape_listed ::
  "web \<Rightarrow> metadata \<Rightarrow> (string \<times> string \<times> string) list \<Rightarrow> state \<Rightarrow> state \<times> (error + unit)" where
  "scrape_listed w metadata_map [] st = (st, Inr ())"
| "scrape_listed w metadata_map ((pid, name, url) # players) st =
     (if pid \<in> seen_players st then scrape_listed w metadata_map players st
      else
        (case scrape_player w pid name url metadata_map st of
           (st', Inl e) \<Rightarrow> (st', Inl e)
         | (st', Inr None) \<Rightarrow> scrape_listed w metadata_map players st'
         | (st', Inr (Some pdata)) \<Rightarrow>
             scrape_listed w metadata_map players (st'\<lparr>dumped := dumped st' @ [(pid, pdata)]\<rparr>)))"

fun scrape_all_years :: "web \<Rightarrow> metadata \<Rightarrow> int list \<Rightarrow> state \<Rightarrow> state \<times> (error + unit)" where
  "scrape_all_years w metadata_map [] st = (st, Inr ())"
| "scrape_all_years w metadata_map (year # years) st =
     (case get_players_for_year w year of
        Inl e \<Rightarrow> (st, Inl e)
      | Inr players \<Rightarrow>
          (case scrape_listed w metadata_map players st of
             (st', Inl e) \<Rightarrow> (st', Inl e)
           | (st', Inr u) \<Rightarrow> scrape_all_years w metadata_map years st'))"

definition script_main :: "web \<Rightarrow> state \<Rightarrow> state \<times> (error + unit)" where
  "script_main w st =
     (case get_table_metadata_for_positions w START_YEAR POSITIONS (schema_log st) of
        (slog, Inl e) \<Rightarrow> (st\<lparr>schema_log := slog\<rparr>, Inl e)
      | (slog, Inr metadata_map) \<Rightarrow>
          scrape_all_years w metadata_map [START_YEAR..END_YEAR] (st\<lparr>schema_log := slog\<rparr>))"

section \<open>Concrete inputs\<close>




text \<open>The header of the disambiguation scenario.\<close>

definition scenario_triples :: "(string \<times> string \<times> string) list" where
  "scenario_triples =
     [(''Passing'', ''Yds'', ''Yards Gained by Passing''), (''Passing'', ''TD'', ''Passing Touchdowns''),
      (''Rushing'', ''Yds'', ''Rushing Yards Gained'')]"

text \<open>
  Two headers whose repeated label stands under categories that differ: in the first
  two of them share their first two letters, in the second a label equals a prefixed
  name.
\<close>

definition punt_triples :: "(string \<times> string \<times> string) list" where
  "punt_triples =
     [(''Passing'', ''Yds'', []), (''Punt Returns'', ''Yds'', []), (''Punting'', ''Yds'', [])]"

definition ruyds_triples :: "(string \<times> string \<times> string) list" where
  "ruyds_triples =
     [(''Passing'', ''Yds'', []), (''Rushing'', ''Yds'', []), (''Misc'', ''ruYds'', [])]"

text \<open>
  The precondition of the uniqueness claim: any two triples with the same column label
  have different categories.
\<close>

fun categories_differ :: "(string \<times> string \<times> string) list \<Rightarrow> bool" where
  "categories_differ [] = True"
| "categories_differ ((cat, col, tp) # rest) =
     (list_all (\<lambda>(cat', col', tp'). col' = col \<longrightarrow> cat' \<noteq> cat) rest \<and> categories_differ rest)"

text \<open>
  The stronger precondition: any two triples with the same column label have categories
  whose lowercase first two characters differ, and the later one has a category.
\<close>

fun prefixes_differ :: "(string \<times> string \<times> string) list \<Rightarrow> bool" where
  "prefixes_differ [] = True"
| "prefixes_differ ((cat, col, tp) # rest) =
     (list_all (\<lambda>(cat', col', tp'). col' = col \<longrightarrow>
                  lower (take 2 cat') \<noteq> lower (take 2 cat) \<and> cat' \<noteq> []) rest
      \<and> prefixes_differ rest)"


text \<open>
  A small site. The 2010 fantasy table lists a quarterback and a running back; each
  player page links game logs; the quarterback's 2011 game log cannot be fetched.
\<close>

definition hcell :: "string \<Rightarrow> string option \<Rightarrow> string option \<Rightarrow> string \<Rightarrow> th" where
  "hcell txt spn stat tp = \<lparr>th_text = txt, colspan = spn, data_stat = stat, data_tip = Some tp\<rparr>"

definition qb_hrows :: "th list list" where
  "qb_hrows =
     [[hcell [] (Some ''2'') None [], hcell ''Passing'' (Some ''2'') None []],
      [hcell ''Rk'' None (Some ''ranker'') ''Rank'', hcell ''Week'' None (Some ''week_num'') ''Week'',
       hcell ''Yds'' None (Some ''pass_yds'') ''Yards Gained by Passing'',
       hcell ''TD'' None (Some ''pass_td'') ''Passing Touchdowns'']]"

definition qb_rows :: "tr list" where
  "qb_rows =
     [\<lparr>tr_class = None, tr_cells = [''1'', ''1'', ''258'', ''2'']\<rparr>,
      \<lparr>tr_class = Some [''thead''], tr_cells = [''Rk'', ''Week'', ''Yds'', ''TD'']\<rparr>,
      \<lparr>tr_class = None, tr_cells = [''2'', ''2'', ''248'', ''1'']\<rparr>]"

definition qb_table :: table where
  "qb_table = \<lparr>thead = Some qb_hrows, tbody = Some qb_rows\<rparr>"

definition rb_hrows :: "th list list" where
  "rb_hrows =
     [[hcell [] (Some ''2'') None [], hcell ''Rushing'' None None []],
      [hcell ''Rk'' None (Some ''ranker'') ''Rank'', hcell ''Week'' None (Some ''week_num'') ''Week'',
       hcell ''Att'' None (Some ''rush_att'') ''Rushing Attempts'']]"

definition rb_rows :: "tr list" where
  "rb_rows = [\<lparr>tr_class = None, tr_cells = [''1'', ''1'', ''21'']\<rparr>]"

definition rb_table :: table where
  "rb_table = \<lparr>thead = Some rb_hrows, tbody = Some rb_rows\<rparr>"

definition page :: soup where
  "page = \<lparr>stats_table = None, fantasy_table = None, inner_nav = NoNav\<rparr>"

definition fantasy_2010 :: "fantasy_row list" where
  "fantasy_2010 =
     [\<lparr>fr_class = None, pos_cell = Some ''QB'',
       player_cell = Some \<lparr>append_csv = Some ''BradTo00'',
                           anchor = Some (Some ''/players/B/BradTo00.htm'', ''Tom Brady'')\<rparr>\<rparr>,
      \<lparr>fr_class = None, pos_cell = Some ''RB'',
       player_cell = Some \<lparr>append_csv = Some ''JohnCh04'',
                           anchor = Some (Some ''/players/J/JohnCh04.htm'', ''Chris Johnson'')\<rparr>\<rparr>]"

definition site :: web where
  "site url =
     (if url = fantasy_url 2010 then Inr (page\<lparr>fantasy_table := Some (Some fantasy_2010)\<rparr>)
      else if url = BASE_URL @ ''/players/B/BradTo00.htm''
        then Inr (page\<lparr>inner_nav := Links [(''/players/B/BradTo00/gamelog/2010/'', ''2010''),
                                            (''/players/B/BradTo00/gamelog/2011/'', ''2011'')]\<rparr>)
      else if url = BASE_URL @ ''/players/J/JohnCh04.htm''
        then Inr (page\<lparr>inner_nav := Links [(''/players/J/JohnCh04/gamelog/2010/'', ''2010'')]\<rparr>)
      else if url = BASE_URL @ ''/players/B/BradTo00/gamelog/2010/''
        then Inr (page\<lparr>stats_table := Some qb_table\<rparr>)
      else if url = BASE_URL @ ''/players/J/JohnCh04/gamelog/2010/''
        then Inr (page\<lparr>stats_table := Some rb_table\<rparr>)
      else Inl HTTPError)"

text \<open>The dictionaries \<open>get_table_metadata\<close> returns for the two game logs of 2010.\<close>

definition qb_meta :: metadata where
  "qb_meta =
     [(([], ''Rk''), \<lparr>unique = ''Rk'', tip = ''Rank''\<rparr>),
      (([], ''Week''), \<lparr>unique = ''Week'', tip = ''Week''\<rparr>),
      ((''Passing'', ''Yds''), \<lparr>unique = ''Yds'', tip = ''Yards Gained by Passing''\<rparr>),
      ((''Passing'', ''TD''), \<lparr>unique = ''TD'', tip = ''Passing Touchdowns''\<rparr>)]"

definition rb_meta :: metadata where
  "rb_meta =
     [(([], ''Rk''), \<lparr>unique = ''Rk'', tip = ''Rank''\<rparr>),
      (([], ''Week''), \<lparr>unique = ''Week'', tip = ''Week''\<rparr>),
      ((''Rushing'', ''Att''), \<lparr>unique = ''Att'', tip = ''Rushing Attempts''\<rparr>)]"








text \<open>
  The quarterback's game log normalized against the running back's registry: its
  canonical headers and the records of its two games.
\<close>

definition qb_fallback_headers :: "string list" where
  "qb_fallback_headers = [''Week'', ''Passing_Yds'', ''Passing_TD'']"

definition qb_games_rb :: "game list" where
  "qb_games_rb =
     [\<lparr>game_week = 1, game_date = PStr [], game_team = PStr [], game_opponent = PStr [],
       game_home = True,
       game_stats = [(''Week'', PInt 1), (''Passing_Yds'', PInt 258), (''Passing_TD'', PInt 2),
                     (''Rk'', PInt 0), (''Att'', PInt 0)],
       game_fantasy = \<lparr>standard = 0, half_ppr = 0, ppr = 0\<rparr>\<rparr>,
      \<lparr>game_week = 2, game_date = PStr [], game_team = PStr [], game_opponent = PStr [],
       game_home = True,
       game_stats = [(''Week'', PInt 2), (''Passing_Yds'', PInt 248), (''Passing_TD'', PInt 1),
                     (''Rk'', PInt 0), (''Att'', PInt 0)],
       game_fantasy = \<lparr>standard = 0, half_ppr = 0, ppr = 0\<rparr>\<rparr>]"


text \<open>
  The running back's game log normalized against his own registry, his player record,
  the two units of work, and the state of a fresh process.
\<close>

definition rb_games :: "game list" where
  "rb_games =
     [\<lparr>game_week = 1, game_date = PStr [], game_team = PStr [], game_opponent = PStr [],
       game_home = True,
       game_stats = [(''Week'', PInt 1), (''Att'', PInt 21), (''Rk'', PInt 0)],
       game_fantasy = \<lparr>standard = 0, half_ppr = 0, ppr = 0\<rparr>\<rparr>]"


definition johnson_task :: task where
  "johnson_task = (''JohnCh04'', ''Chris Johnson'', BASE_URL @ ''/players/J/JohnCh04.htm'', rb_meta)"

definition brady_task :: task where
  "brady_task = (''BradTo00'', ''Tom Brady'', BASE_URL @ ''/players/B/BradTo00.htm'', rb_meta)"

definition fresh :: state where
  "fresh = \<lparr>seen_players = {}, schema_log = [], dumped = []\<rparr>"


text \<open>
  The player files written so far belong to players already seen, one file each.
\<close>

definition dumped_once :: "state \<Rightarrow> bool" where
  "dumped_once st = (fst ` set (dumped st) \<subseteq> seen_players st \<and> distinct (map fst (dumped st)))"


section \<open>Rounding\<close>

lemma round_half_even_bounds:
  "of_int (round_half_even x) - 1 / 2 \<le> x \<and> x \<le> of_int (round_half_even x) + 1 / 2"
proof -
  have "of_int \<lfloor>x\<rfloor> \<le> x" "x < of_int \<lfloor>x\<rfloor> + 1" by linarith+
  then show ?thesis
    unfolding round_half_even_def Let_def
    by (cases "x - of_int \<lfloor>x\<rfloor> < 1 / 2"; cases "1 / 2 < x - of_int \<lfloor>x\<rfloor>"; cases "even \<lfloor>x\<rfloor>")
       (simp_all, linarith+)
qed





lemma round_half_even_eqI:
  assumes "of_int n - 1 / 2 < x" "x < of_int n + 1 / 2"
  shows "round_half_even x = n"
proof -
  have "of_int (round_half_even x) - 1 / 2 \<le> x" "x \<le> of_int (round_half_even x) + 1 / 2"
    using round_half_even_bounds [of x] by auto
  with assms have "rat_of_int n < of_int (round_half_even x) + 1"
    "rat_of_int (round_half_even x) < of_int n + 1" by linarith+
  then have "n < round_half_even x + 1" "round_half_even x < n + 1"
    by (metis of_int_less_iff of_int_add of_int_1)+
  then show ?thesis by linarith
qed

lemma round_half_even_of_int [simp]: "round_half_even (of_int n) = n"
  by (rule round_half_even_eqI) simp_all

lemma round_half_even_numeral [simp]: "round_half_even (numeral k) = numeral k"
  using round_half_even_of_int [of "numeral k"] by simp

lemma round_half_even_zero [simp]: "round_half_even 0 = 0"
  using round_half_even_of_int [of 0] by simp



section \<open>The score triple\<close>







section \<open>Seeding: the names \<open>get_table_metadata\<close> assigns\<close>

lemma seen_count_name:
  "map_of (count_name nc c) c' = None \<longleftrightarrow> map_of nc c' = None \<and> c' \<noteq> c"
  by (cases "map_of nc c") (simp_all add: count_name_def AList.update_conv')

lemma seen_fold_count_name:
  "map_of (fold (\<lambda>c nc. count_name nc c) cs nc) c' = None
     \<longleftrightarrow> map_of nc c' = None \<and> c' \<notin> set cs"
  by (induction cs arbitrary: nc) (auto simp: seen_count_name)

lemma build_meta_snoc:
  "build_meta nc meta (xs @ [(cat, col, tp)]) =
     AList.update (cat, col)
       \<lparr>unique = unique_name (fold (\<lambda>c nc. count_name nc c) (map (\<lambda>(a, c, t). c) xs) nc) cat col,
        tip = tp\<rparr>
       (build_meta nc meta xs)"
  by (induction nc meta xs rule: build_meta.induct) auto

lemma unique_name_seen:
  "unique_name (fold (\<lambda>c nc. count_name nc c) cs []) cat col =
     (if col \<in> set cs then lower (take 2 cat) @ col else col)"
  using seen_fold_count_name [of cs "[]" col] by (auto simp: unique_name_def)

lemma build_meta_last:
  "map_of (build_meta [] [] (xs @ [(cat, col, tp)])) (cat, col) =
     Some \<lparr>unique = (if col \<in> set (map (\<lambda>(a, c, t). c) xs) then lower (take 2 cat) @ col else col),
           tip = tp\<rparr>"
  unfolding build_meta_snoc unique_name_seen by (simp add: AList.update_conv')

lemma build_meta_later:
  assumes "(cat, col) \<notin> set (map (\<lambda>(a, c, t). (a, c)) ys)"
  shows "map_of (build_meta [] [] (xs @ ys)) (cat, col) = map_of (build_meta [] [] xs) (cat, col)"
  using assms
proof (induction ys rule: rev_induct)
  case Nil
  then show ?case by simp
next
  case (snoc y ys)
  obtain a c t where y: "y = (a, c, t)" by (cases y)
  from snoc.prems have ne: "(a, c) \<noteq> (cat, col)" and rest: "(cat, col) \<notin> set (map (\<lambda>(a, c, t). (a, c)) ys)"
    by (auto simp: y)
  have "map_of (build_meta [] [] ((xs @ ys) @ [(a, c, t)])) (cat, col)
        = map_of (build_meta [] [] (xs @ ys)) (cat, col)"
    unfolding build_meta_snoc using ne by (auto simp: AList.update_conv')
  then show ?case using snoc.IH [OF rest] by (simp add: y)
qed

text \<open>
  Claim C4. The triples are processed in encounter order: once the triple at index
  \<open>i\<close> is processed, its key \<open>(category, column)\<close> maps to the column label itself when
  the label was not seen at an earlier index, and otherwise to the label prefixed with
  the lowercase first two characters of the category. On the categories Passing,
  Passing, Rushing with the columns Yds, TD, Yds the names are Yds, TD, ruYds.
\<close>

theorem build_meta_names:
  assumes "i < length ts" and "ts ! i = (cat, col, tp)"
  shows "map_of (build_meta [] [] (take (Suc i) ts)) (cat, col) =
           Some \<lparr>unique = (if col \<in> set (map (\<lambda>(a, c, t). c) (take i ts))
                             then lower (take 2 cat) @ col else col),
                 tip = tp\<rparr>
         \<and> map fst (build_meta [] [] scenario_triples) =
             [(''Passing'', ''Yds''), (''Passing'', ''TD''), (''Rushing'', ''Yds'')]
         \<and> map (\<lambda>(k, i). unique i) (build_meta [] [] scenario_triples) = [''Yds'', ''TD'', ''ruYds'']"
proof -
  have "take (Suc i) ts = take i ts @ [(cat, col, tp)]"
    using assms by (simp add: take_Suc_conv_app_nth)
  then have "map_of (build_meta [] [] (take (Suc i) ts)) (cat, col) =
           Some \<lparr>unique = (if col \<in> set (map (\<lambda>(a, c, t). c) (take i ts))
                             then lower (take 2 cat) @ col else col),
                 tip = tp\<rparr>"
    using build_meta_last [of "take i ts" cat col tp] by simp
  moreover have "map fst (build_meta [] [] scenario_triples) =
             [(''Passing'', ''Yds''), (''Passing'', ''TD''), (''Rushing'', ''Yds'')]"
    by (simp add: scenario_triples_def)
  moreover have "map (\<lambda>(k, i). unique i) (build_meta [] [] scenario_triples) = [''Yds'', ''TD'', ''ruYds'']"
    by (simp add: scenario_triples_def unique_name_def count_name_def lower_def lower_char_def)
  ultimately show ?thesis by blast
qed

theorem build_meta_names_witness:
  "(2::nat) < length scenario_triples
   \<and> scenario_triples ! 2 = (''Rushing'', ''Yds'', ''Rushing Yards Gained'')
   \<and> map_of (build_meta [] [] scenario_triples) (''Rushing'', ''Yds'') =
       Some \<lparr>unique = ''ruYds'', tip = ''Rushing Yards Gained''\<rparr>"
proof -
  have a: "(2::nat) < length scenario_triples"
    and b: "scenario_triples ! 2 = (''Rushing'', ''Yds'', ''Rushing Yards Gained'')"
    by (simp_all add: scenario_triples_def)
  have c: "take (Suc 2) scenario_triples = scenario_triples"
    by (simp add: scenario_triples_def)
  have d: "''Yds'' \<in> set (map (\<lambda>(a, c, t). c) (take 2 scenario_triples))"
    by (simp add: scenario_triples_def)
  have e: "lower (take 2 ''Rushing'') = ''ru''"
    by (simp add: lower_def lower_char_def)
  show ?thesis
    using build_meta_names [OF a b] a b unfolding c using d e by simp
qed

section \<open>Uniqueness of the assigned names\<close>

lemma categories_differ_nth:
  assumes "categories_differ ts" and "i < j" and "j < length ts"
    and "fst (snd (ts ! i)) = fst (snd (ts ! j))"
  shows "fst (ts ! i) \<noteq> fst (ts ! j)"
  using assms
proof (induction ts arbitrary: i j)
  case Nil
  then show ?case by simp
next
  case (Cons x xs)
  obtain a c t where x: "x = (a, c, t)" by (cases x)
  from Cons.prems(2) obtain j' where j: "j = Suc j'" by (cases j) auto
  show ?case
  proof (cases i)
    case 0
    have "xs ! j' \<in> set xs" using Cons.prems(3) j by simp
    with Cons.prems(1) have "fst (snd (xs ! j')) = c \<longrightarrow> fst (xs ! j') \<noteq> a"
      by (auto simp: x list_all_iff)
    with Cons.prems(4) show ?thesis by (auto simp: 0 j x)
  next
    case (Suc i')
    with Cons.prems j have "categories_differ xs" "i' < j'" "j' < length xs"
      "fst (snd (xs ! i')) = fst (snd (xs ! j'))" by (auto simp: x)
    from Cons.IH [OF this] show ?thesis by (simp add: Suc j)
  qed
qed

lemma prefixes_differ_nth:
  assumes "prefixes_differ ts" and "i < j" and "j < length ts"
    and "fst (snd (ts ! i)) = fst (snd (ts ! j))"
  shows "lower (take 2 (fst (ts ! j))) \<noteq> lower (take 2 (fst (ts ! i))) \<and> fst (ts ! j) \<noteq> []"
  using assms
proof (induction ts arbitrary: i j)
  case Nil
  then show ?case by simp
next
  case (Cons x xs)
  obtain a c t where x: "x = (a, c, t)" by (cases x)
  from Cons.prems(2) obtain j' where j: "j = Suc j'" by (cases j) auto
  show ?case
  proof (cases i)
    case 0
    have "xs ! j' \<in> set xs" using Cons.prems(3) j by simp
    with Cons.prems(1) have "fst (snd (xs ! j')) = c \<longrightarrow>
        lower (take 2 (fst (xs ! j'))) \<noteq> lower (take 2 a) \<and> fst (xs ! j') \<noteq> []"
      by (auto simp: x list_all_iff)
    with Cons.prems(4) show ?thesis by (auto simp: 0 j x)
  next
    case (Suc i')
    with Cons.prems j have "prefixes_differ xs" "i' < j'" "j' < length xs"
      "fst (snd (xs ! i')) = fst (snd (xs ! j'))" by (auto simp: x)
    from Cons.IH [OF this] show ?thesis by (simp add: Suc j)
  qed
qed

text \<open>
  Where the key of the triple at index \<open>i\<close> does not come again, the finished map keeps
  the name given at index \<open>i\<close>.
\<close>

lemma build_meta_lookup:
  assumes "i < length ts" and "ts ! i = (cat, col, tp)"
    and "\<And>j. i < j \<Longrightarrow> j < length ts \<Longrightarrow> (fst (ts ! j), fst (snd (ts ! j))) \<noteq> (cat, col)"
  shows "map_of (build_meta [] [] ts) (cat, col) =
           Some \<lparr>unique = (if col \<in> set (map (\<lambda>(a, c, t). c) (take i ts))
                             then lower (take 2 cat) @ col else col),
                 tip = tp\<rparr>"
proof -
  have split: "ts = (take i ts @ [(cat, col, tp)]) @ drop (Suc i) ts"
    using assms(1,2) by (metis append.assoc append_Cons append_Nil id_take_nth_drop)
  have "(cat, col) \<notin> set (map (\<lambda>(a, c, t). (a, c)) (drop (Suc i) ts))"
  proof
    assume "(cat, col) \<in> set (map (\<lambda>(a, c, t). (a, c)) (drop (Suc i) ts))"
    then obtain k where k: "k < length (drop (Suc i) ts)"
      and e: "(\<lambda>(a, c, t). (a, c)) (drop (Suc i) ts ! k) = (cat, col)"
      by (auto simp: in_set_conv_nth)
    have "drop (Suc i) ts ! k = ts ! (Suc i + k)" using k by simp
    with e have "(fst (ts ! (Suc i + k)), fst (snd (ts ! (Suc i + k)))) = (cat, col)"
      by (simp add: case_prod_beta)
    moreover have "i < Suc i + k" "Suc i + k < length ts" using k by auto
    ultimately show False using assms(3) by blast
  qed
  from build_meta_later [OF this, of "take i ts @ [(cat, col, tp)]"]
  have "map_of (build_meta [] [] ts) (cat, col)
        = map_of (build_meta [] [] (take i ts @ [(cat, col, tp)])) (cat, col)"
    using split by simp
  then show ?thesis using build_meta_last [of "take i ts" cat col tp] by simp
qed

lemma lower_eq_Nil: "lower s = [] \<longleftrightarrow> s = []"
  by (simp add: lower_def)

text \<open>
  Claim C5, as stated, fails. In the first header the label Yds stands under Passing,
  Punt Returns and Punting, three different categories, and the keys of the last two
  both get the name puYds. In the second the keys (Rushing, Yds) and (Misc, ruYds)
  both get the name ruYds.
\<close>

theorem same_prefix_same_name:
  "categories_differ punt_triples
   \<and> map_of (build_meta [] [] punt_triples) (''Punt Returns'', ''Yds'') = Some \<lparr>unique = ''puYds'', tip = []\<rparr>
   \<and> map_of (build_meta [] [] punt_triples) (''Punting'', ''Yds'') = Some \<lparr>unique = ''puYds'', tip = []\<rparr>
   \<and> categories_differ ruyds_triples
   \<and> map_of (build_meta [] [] ruyds_triples) (''Rushing'', ''Yds'') = Some \<lparr>unique = ''ruYds'', tip = []\<rparr>
   \<and> map_of (build_meta [] [] ruyds_triples) (''Misc'', ''ruYds'') = Some \<lparr>unique = ''ruYds'', tip = []\<rparr>"
  by (simp add: punt_triples_def ruyds_triples_def unique_name_def count_name_def lower_def lower_char_def)

text \<open>
  Claim C5, amended. For every sequence of header triples of one seeding pass in which
  any two triples sharing a column label have categories whose lowercase first two
  characters differ, the later of the two having a category, no two keys with the same
  column label are assigned the same canonical name.
\<close>

theorem same_label_names_differ:
  assumes "prefixes_differ ts" and "i < j" and "j < length ts"
    and "fst (snd (ts ! i)) = fst (snd (ts ! j))"
  shows "\<exists>a b. map_of (build_meta [] [] ts) (fst (ts ! i), fst (snd (ts ! i))) = Some a
           \<and> map_of (build_meta [] [] ts) (fst (ts ! j), fst (snd (ts ! j))) = Some b
           \<and> unique a \<noteq> unique b"
proof -
  obtain ci col ti where ti: "ts ! i = (ci, col, ti)" by (cases "ts ! i")
  obtain cj col' tj where tj': "ts ! j = (cj, col', tj)" by (cases "ts ! j")
  from assms(4) have tj: "ts ! j = (cj, col, tj)" by (simp add: ti tj')
  have il: "i < length ts" using assms(2,3) by simp
  have pd: "lower (take 2 (fst (ts ! l))) \<noteq> lower (take 2 (fst (ts ! k))) \<and> fst (ts ! l) \<noteq> []"
    if "k < l" "l < length ts" "fst (snd (ts ! k)) = fst (snd (ts ! l))" for k l
    using prefixes_differ_nth [OF assms(1) that] .
  have later_i: "(fst (ts ! l), fst (snd (ts ! l))) \<noteq> (ci, col)" if "i < l" "l < length ts" for l
  proof
    assume e: "(fst (ts ! l), fst (snd (ts ! l))) = (ci, col)"
    then have "fst (snd (ts ! i)) = fst (snd (ts ! l))" by (simp add: ti)
    from pd [OF that this] e show False by (simp add: ti)
  qed
  have later_j: "(fst (ts ! l), fst (snd (ts ! l))) \<noteq> (cj, col)" if "j < l" "l < length ts" for l
  proof
    assume e: "(fst (ts ! l), fst (snd (ts ! l))) = (cj, col)"
    then have "fst (snd (ts ! j)) = fst (snd (ts ! l))" by (simp add: tj)
    from pd [OF that this] e show False by (simp add: tj)
  qed
  have seen_j: "col \<in> set (map (\<lambda>(a, c, t). c) (take j ts))"
  proof -
    have "take j ts ! i = ts ! i" "i < length (take j ts)" using assms(2,3) by simp_all
    then have "(ci, col, ti) \<in> set (take j ts)" by (metis nth_mem ti)
    then show ?thesis by force
  qed
  have pj: "lower (take 2 cj) \<noteq> lower (take 2 ci)" "cj \<noteq> []"
    using pd [OF assms(2,3,4)] by (simp_all add: ti tj)
  have a: "map_of (build_meta [] [] ts) (ci, col) =
      Some \<lparr>unique = (if col \<in> set (map (\<lambda>(a, c, t). c) (take i ts))
                       then lower (take 2 ci) @ col else col), tip = ti\<rparr>"
    by (rule build_meta_lookup [OF il ti later_i])
  have b: "map_of (build_meta [] [] ts) (cj, col) = Some \<lparr>unique = lower (take 2 cj) @ col, tip = tj\<rparr>"
    using build_meta_lookup [OF assms(3) tj later_j] seen_j by simp
  have "lower (take 2 cj) \<noteq> []" using pj(2) by (simp add: lower_eq_Nil)
  then have "(if col \<in> set (map (\<lambda>(a, c, t). c) (take i ts))
               then lower (take 2 ci) @ col else col) \<noteq> lower (take 2 cj) @ col"
    using pj(1) by auto
  then show ?thesis
    unfolding ti tj using a b by simp
qed

theorem same_label_names_differ_witness:
  "prefixes_differ scenario_triples \<and> (0::nat) < 2 \<and> 2 < length scenario_triples
   \<and> fst (snd (scenario_triples ! 0)) = fst (snd (scenario_triples ! 2))
   \<and> (\<exists>a b. map_of (build_meta [] [] scenario_triples) (''Passing'', ''Yds'') = Some a
          \<and> map_of (build_meta [] [] scenario_triples) (''Rushing'', ''Yds'') = Some b
          \<and> unique a \<noteq> unique b)"
proof -
  have p: "prefixes_differ scenario_triples"
    by (simp add: scenario_triples_def lower_def lower_char_def)
  have l: "2 < length scenario_triples"
    and c: "fst (snd (scenario_triples ! 0)) = fst (snd (scenario_triples ! 2))"
    and k: "scenario_triples ! 0 = (''Passing'', ''Yds'', ''Yards Gained by Passing'')"
      "scenario_triples ! 2 = (''Rushing'', ''Yds'', ''Rushing Yards Gained'')"
    by (simp_all add: scenario_triples_def)
  show ?thesis
    using same_label_names_differ [OF p _ l c] p l c unfolding k by simp
qed

section \<open>Evaluation on the small site\<close>

lemmas string_evals =
  strip_def strip_chars_def isspace_def digit_char_def isdigit_def lower_def lower_char_def
  digit_of_def str_int_def py_int_def py_float_def split_sign_def digitpart_def
  digitpart_value_def coerce_def

lemma fantasy_url_2010: "fantasy_url 2010 = ''https://www.pro-football-reference.com/years/2010/fantasy.htm''"
  by (simp add: fantasy_url_def BASE_URL_def string_evals)

lemma site_fantasy: "site (fantasy_url 2010) = Inr (page\<lparr>fantasy_table := Some (Some fantasy_2010)\<rparr>)"
  by (simp add: site_def)

lemma site_brady:
  "site (BASE_URL @ ''/players/B/BradTo00.htm'') =
     Inr (page\<lparr>inner_nav := Links [(''/players/B/BradTo00/gamelog/2010/'', ''2010''),
                                  (''/players/B/BradTo00/gamelog/2011/'', ''2011'')]\<rparr>)"
  by (simp add: site_def fantasy_url_2010 BASE_URL_def)

lemma site_johnson:
  "site (BASE_URL @ ''/players/J/JohnCh04.htm'') =
     Inr (page\<lparr>inner_nav := Links [(''/players/J/JohnCh04/gamelog/2010/'', ''2010'')]\<rparr>)"
  by (simp add: site_def fantasy_url_2010 BASE_URL_def)

lemma site_brady_2010:
  "site (BASE_URL @ ''/players/B/BradTo00/gamelog/2010/'') = Inr (page\<lparr>stats_table := Some qb_table\<rparr>)"
  by (simp add: site_def fantasy_url_2010 BASE_URL_def)

lemma site_brady_2011:
  "site (BASE_URL @ ''/players/B/BradTo00/gamelog/2011/'') = Inl HTTPError"
  by (simp add: site_def fantasy_url_2010 BASE_URL_def)

lemma site_johnson_2010:
  "site (BASE_URL @ ''/players/J/JohnCh04/gamelog/2010/'') = Inr (page\<lparr>stats_table := Some rb_table\<rparr>)"
  by (simp add: site_def fantasy_url_2010 BASE_URL_def)

lemma qb_table_triples:
  "table_triples qb_table =
     Inr [([], ''Rk'', ''Rank''), ([], ''Week'', ''Week''),
          (''Passing'', ''Yds'', ''Yards Gained by Passing''),
          (''Passing'', ''TD'', ''Passing Touchdowns'')]"
  by (simp add: table_triples_def qb_table_def qb_hrows_def hcell_def colspan_of_def header_triples_def
      enumerate_eq_zip cat_at_def tip_of_def string_evals numeral_2_eq_2 upt_rec)

lemma rb_table_triples:
  "table_triples rb_table =
     Inr [([], ''Rk'', ''Rank''), ([], ''Week'', ''Week''), (''Rushing'', ''Att'', ''Rushing Attempts'')]"
  by (simp add: table_triples_def rb_table_def rb_hrows_def hcell_def colspan_of_def header_triples_def
      enumerate_eq_zip cat_at_def tip_of_def string_evals numeral_2_eq_2 upt_rec)

lemma qb_metadata:
  "get_table_metadata site (BASE_URL @ ''/players/B/BradTo00/gamelog/2010/'') False slog = (slog, Inr qb_meta)"
  by (simp add: get_table_metadata_def site_brady_2010 page_def qb_table_triples qb_meta_def
      unique_name_def count_name_def)

lemma rb_metadata:
  "get_table_metadata site (BASE_URL @ ''/players/J/JohnCh04/gamelog/2010/'') False slog = (slog, Inr rb_meta)"
  by (simp add: get_table_metadata_def site_johnson_2010 page_def rb_table_triples rb_meta_def
      unique_name_def count_name_def)

lemma site_found:
  "find_positions site POSITIONS [] None fantasy_2010 =
     Inr ([(''QB'', qb_meta), (''RB'', rb_meta)], Some rb_meta)"
  by (simp add: fantasy_2010_def POSITIONS_def has_thead_class_def site_brady site_johnson
      page_def qb_metadata rb_metadata strip_def strip_chars_def isspace_def)

section \<open>The schema log after seeding\<close>

text \<open>
  Claim C9 against the code, on the small site. The registry returned by
  \<open>get_table_metadata_for_positions\<close> is the merge of the quarterback's and the running
  back's entries, five of them; the schema log written at the end holds the three
  lines of the running back's dictionary, the last value of the variable \<open>meta\<close>, and
  no line for the two passing entries.
\<close>

theorem seeding_log_misses_entries:
  "get_table_metadata_for_positions site START_YEAR POSITIONS slog =
     (['',Rk:Rk | Rank'', '',Week:Week | Week'', ''Rushing,Att:Att | Rushing Attempts''],
      Inr [(([], ''Rk''), \<lparr>unique = ''Rk'', tip = ''Rank''\<rparr>),
           (([], ''Week''), \<lparr>unique = ''Week'', tip = ''Week''\<rparr>),
           ((''Passing'', ''Yds''), \<lparr>unique = ''Yds'', tip = ''Yards Gained by Passing''\<rparr>),
           ((''Passing'', ''TD''), \<lparr>unique = ''TD'', tip = ''Passing Touchdowns''\<rparr>),
           ((''Rushing'', ''Att''), \<lparr>unique = ''Att'', tip = ''Rushing Attempts''\<rparr>)])"
  by (simp add: get_table_metadata_for_positions_def START_YEAR_def site_fantasy page_def
      site_found dict_update_def meta_lines_def log_line_def qb_meta_def rb_meta_def)

section \<open>Unknown headers\<close>

lemma canonical_headers_closed:
  "canonical_headers metadata_map col_pairs headers slog =
     (headers @ map (\<lambda>(cat, col, tp). case map_of metadata_map (cat, col) of
                                          Some i \<Rightarrow> unique i
                                        | None \<Rightarrow> fallback_name cat col) col_pairs,
      slog @ map (\<lambda>(cat, col, tp). log_line cat col (fallback_name cat col) tp)
               (filter (\<lambda>(cat, col, tp). map_of metadata_map (cat, col) = None) col_pairs))"
  by (induction metadata_map col_pairs headers slog rule: canonical_headers.induct)
     (auto split: option.splits)

lemma strip_chars_id:
  assumes "s \<noteq> []" and "\<not> p (hd s)" and "\<not> p (last s)"
  shows "strip_chars p s = s"
proof -
  have "dropWhile p s = s" using assms(1,2) by (cases s) auto
  moreover have "dropWhile p (rev s) = rev s"
    using assms(1,3) by (cases "rev s") (auto simp: last_rev [symmetric] simp del: last_rev)
  ultimately show ?thesis by (simp add: strip_chars_def)
qed

lemma fallback_name_joined:
  assumes "cat \<noteq> []" and "hd cat \<noteq> CHR ''_''" and "col \<noteq> []" and "last col \<noteq> CHR ''_''"
  shows "fallback_name cat col = cat @ ''_'' @ col"
  unfolding fallback_name_def using assms by (intro strip_chars_id) auto

lemma fallback_name_column:
  assumes "col \<noteq> []" and "hd col \<noteq> CHR ''_''" and "last col \<noteq> CHR ''_''"
  shows "fallback_name [] col = col"
proof -
  have "dropWhile (\<lambda>c. c = CHR ''_'') (''_'' @ col) = col"
    using assms(1,2) by (cases col) auto
  moreover have "dropWhile (\<lambda>c. c = CHR ''_'') (rev col) = rev col"
    using assms(1,3) by (cases "rev col") (auto simp: last_rev [symmetric] simp del: last_rev)
  ultimately show ?thesis by (simp add: fallback_name_def strip_chars_def)
qed

lemma canonical_headers_log:
  "snd (canonical_headers metadata_map col_pairs headers slog) =
     slog @ snd (canonical_headers metadata_map col_pairs headers [])"
  and canonical_headers_names:
  "fst (canonical_headers metadata_map col_pairs headers slog) =
     fst (canonical_headers metadata_map col_pairs headers [])"
  by (simp_all add: canonical_headers_closed)

lemma scrape_gamelog_appends:
  "fst (scrape_gamelog w url metadata_map slog) = slog @ fst (scrape_gamelog w url metadata_map [])
   \<and> snd (scrape_gamelog w url metadata_map slog) = snd (scrape_gamelog w url metadata_map [])"
  unfolding scrape_gamelog_def canonical_headers_closed Let_def
  by (simp split: sum.split option.split)

lemma scrape_gamelog_log:
  assumes "w url = Inr sp" and "stats_table sp = Some t" and "thead t = Some hrows"
    and "hrows \<noteq> []" and "over_headers_of [] (butlast hrows) = Inr over_headers"
  shows "fst (scrape_gamelog w url metadata_map slog) =
           snd (canonical_headers metadata_map (col_pairs_of over_headers (last hrows)) [] slog)"
  unfolding scrape_gamelog_def canonical_headers_closed Let_def using assms
  by (simp split: sum.split option.split)

lemma qb_over_headers: "over_headers_of [] (butlast qb_hrows) = Inr [[], [], ''Passing'', ''Passing'']"
  by (simp add: qb_hrows_def hcell_def colspan_of_def string_evals numeral_2_eq_2)

lemma qb_col_pairs:
  "col_pairs_of [[], [], ''Passing'', ''Passing''] (last qb_hrows) =
     [([], ''Week'', ''Week''), (''Passing'', ''Yds'', ''Yards Gained by Passing''),
      (''Passing'', ''TD'', ''Passing Touchdowns'')]"
  by (simp add: qb_hrows_def hcell_def col_pairs_of_def enumerate_eq_zip cat_at_def tip_of_def
      string_evals upt_rec)

lemma qb_hrows_not_Nil: "qb_hrows \<noteq> []"
  by (simp add: qb_hrows_def)

lemma qb_log_with_rb_meta:
  "fst (scrape_gamelog site (BASE_URL @ ''/players/B/BradTo00/gamelog/2010/'') rb_meta slog) =
     slog @ [''Passing,Yds:Passing_Yds | Yards Gained by Passing'',
             ''Passing,TD:Passing_TD | Passing Touchdowns'']"
proof -
  have "fst (scrape_gamelog site (BASE_URL @ ''/players/B/BradTo00/gamelog/2010/'') rb_meta slog) =
      snd (canonical_headers rb_meta
             [([], ''Week'', ''Week''), (''Passing'', ''Yds'', ''Yards Gained by Passing''),
              (''Passing'', ''TD'', ''Passing Touchdowns'')] [] slog)"
    using scrape_gamelog_log [where w = site and sp = "page\<lparr>stats_table := Some qb_table\<rparr>"
        and t = qb_table and metadata_map = rb_meta and slog = slog and hrows = qb_hrows,
        OF site_brady_2010 _ _ qb_hrows_not_Nil qb_over_headers]
    by (simp add: page_def qb_table_def qb_col_pairs)
  then show ?thesis
    by (simp add: rb_meta_def fallback_name_def strip_chars_def log_line_def)
qed

text \<open>
  Claim C2, as stated, fails. The registry \<open>rb_meta\<close> has no entry for (Passing, Yds).
  Normalizing the quarterback's game log against it appends the line of that header to
  the schema log; normalizing the same document again within the run, with the same
  registry, appends the line a second time.
\<close>

theorem unknown_header_logged_twice:
  "map_of rb_meta (''Passing'', ''Yds'') = None
   \<and> fst (scrape_gamelog site (BASE_URL @ ''/players/B/BradTo00/gamelog/2010/'') rb_meta []) =
       [''Passing,Yds:Passing_Yds | Yards Gained by Passing'',
        ''Passing,TD:Passing_TD | Passing Touchdowns'']
   \<and> fst (scrape_gamelog site (BASE_URL @ ''/players/B/BradTo00/gamelog/2010/'') rb_meta
            (fst (scrape_gamelog site (BASE_URL @ ''/players/B/BradTo00/gamelog/2010/'') rb_meta []))) =
       [''Passing,Yds:Passing_Yds | Yards Gained by Passing'',
        ''Passing,TD:Passing_TD | Passing Touchdowns'',
        ''Passing,Yds:Passing_Yds | Yards Gained by Passing'',
        ''Passing,TD:Passing_TD | Passing Touchdowns'']"
  unfolding qb_log_with_rb_meta by (simp add: rb_meta_def)

text \<open>
  Claim C2, amended. A header pair that is not a key of the registry gets the fallback
  name category + "_" + column with leading and trailing underscores stripped (the
  joined name when neither end is an underscore, just the column when the category is
  empty), and one line for it is appended to the schema log at each such encounter.
  The registry is not extended: whatever the log already holds, a call of
  \<open>scrape_gamelog\<close> appends the same lines and returns the same games.
\<close>

theorem unknown_header_fallback:
  "canonical_headers metadata_map col_pairs [] slog =
     (map (\<lambda>(cat, col, tp). case map_of metadata_map (cat, col) of
                               Some i \<Rightarrow> unique i
                             | None \<Rightarrow> fallback_name cat col) col_pairs,
      slog @ map (\<lambda>(cat, col, tp). log_line cat col (fallback_name cat col) tp)
               (filter (\<lambda>(cat, col, tp). map_of metadata_map (cat, col) = None) col_pairs))
   \<and> (cat \<noteq> [] \<and> hd cat \<noteq> CHR ''_'' \<and> col \<noteq> [] \<and> last col \<noteq> CHR ''_''
        \<longrightarrow> fallback_name cat col = cat @ ''_'' @ col)
   \<and> (col \<noteq> [] \<and> hd col \<noteq> CHR ''_'' \<and> last col \<noteq> CHR ''_'' \<longrightarrow> fallback_name [] col = col)
   \<and> fst (scrape_gamelog w url metadata_map slog) = slog @ fst (scrape_gamelog w url metadata_map [])
   \<and> snd (scrape_gamelog w url metadata_map slog) = snd (scrape_gamelog w url metadata_map [])"
  using canonical_headers_closed [of metadata_map col_pairs "[]" slog]
    fallback_name_joined [of cat col] fallback_name_column [of col]
    scrape_gamelog_appends [of w url metadata_map slog]
  by simp

theorem unknown_header_fallback_witness:
  "canonical_headers rb_meta [([], ''Week'', ''Week''), (''Passing'', ''Yds'', ''Yards'')] [] [''old''] =
     ([''Week'', ''Passing_Yds''], [''old'', ''Passing,Yds:Passing_Yds | Yards''])
   \<and> fallback_name ''Passing'' ''Yds'' = ''Passing_Yds''
   \<and> fallback_name [] ''Yds'' = ''Yds''"
proof -
  have "map_of rb_meta ([], ''Week'') = Some \<lparr>unique = ''Week'', tip = ''Week''\<rparr>"
    "map_of rb_meta (''Passing'', ''Yds'') = None"
    by (simp_all add: rb_meta_def)
  then show ?thesis
    using unknown_header_fallback [of rb_meta "[([], ''Week'', ''Week''), (''Passing'', ''Yds'', ''Yards'')]"
        "[''old'']" "''Passing''" "''Yds''"]
    by (simp add: log_line_def)
qed

section \<open>Digits\<close>

lemma digit_of_digit: "d < 10 \<Longrightarrow> digit_char (digit_of d)"
proof -
  assume "d < 10"
  then have "d \<in> {0, 1, 2, 3, 4, 5, 6, 7, 8, 9}" by auto
  then show ?thesis
    by (auto simp: digit_of_def digit_char_def)
qed

lemma str_nat_digits: "list_all digit_char (str_nat n) \<and> str_nat n \<noteq> []"
proof (induction n rule: str_nat.induct)
  case (1 n)
  show ?case
  proof (cases "n < 10")
    case True
    then show ?thesis by (subst str_nat.simps, subst (2) str_nat.simps) (simp add: digit_of_digit)
  next
    case False
    then have "list_all digit_char (str_nat (n div 10))" using 1 by simp
    moreover have "digit_char (digit_of (n mod 10))" by (rule digit_of_digit) simp
    ultimately show ?thesis using False
      by (subst str_nat.simps, subst (2) str_nat.simps) simp
  qed
qed

lemma isdigit_str_int: "isdigit (str_int n) \<longleftrightarrow> 0 \<le> n"
  using str_nat_digits [of "nat n"]
  by (auto simp: isdigit_def str_int_def digit_char_def)

lemma grouped_digits: "s \<noteq> [] \<Longrightarrow> list_all digit_char s \<Longrightarrow> grouped s"
  by (induction s rule: grouped.induct) auto

lemma digit_not_space: "digit_char c \<Longrightarrow> \<not> isspace c"
  by (auto simp: digit_char_def isspace_def)

lemma py_int_isdigit:
  assumes "isdigit s"
  shows "py_int s = Some (int (digitpart_value s))"
proof -
  from assms obtain c cs where s: "s = c # cs" and all: "list_all digit_char s"
    by (cases s) (auto simp: isdigit_def)
  have hd: "digit_char (hd s)" and last: "digit_char (last s)"
    using all s by (auto simp: list_all_iff)
  have "strip s = s"
    unfolding strip_def using s hd last by (intro strip_chars_id) (auto simp: digit_not_space)
  moreover have "split_sign s = (1, s)"
    using hd s by (auto simp: split_sign_def digit_char_def)
  moreover have "digitpart s"
    using all s grouped_digits [of s] by (auto simp: digitpart_def)
  ultimately show ?thesis by (simp add: py_int_def)
qed

lemma isdigit_no_point:
  assumes "isdigit s"
  shows "CHR ''.'' \<notin> set s"
proof
  assume "CHR ''.'' \<in> set s"
  with assms have "digit_char CHR ''.''" by (simp add: isdigit_def list_all_iff)
  then show False by (simp add: digit_char_def)
qed

lemma coerce_cases:
  "(\<exists>n. coerce s = PInt n) \<or> (\<exists>r. coerce s = PFloat r) \<or> (coerce s = PStr s \<and> \<not> isdigit s)"
proof (cases "isdigit s")
  case True
  then show ?thesis
    using py_int_isdigit [OF True] isdigit_no_point [OF True] by (simp add: coerce_def)
next
  case False
  then show ?thesis by (auto simp: coerce_def split: option.splits)
qed

section \<open>The stat mapping of a row\<close>

lemma fold_update_keys:
  "fst ` set (fold (\<lambda>(header, cell). AList.update header (f cell)) zs acc) =
     fst ` set acc \<union> fst ` set zs"
proof (induction zs arbitrary: acc)
  case Nil
  then show ?case by simp
next
  case (Cons z zs)
  obtain h c where z: "z = (h, c)" by (cases z)
  have "fst ` set (AList.update h (f c) acc) = {h} \<union> fst ` set acc"
    by (rule AList.dom_update)
  then show ?case
    unfolding z by (simp add: Cons.IH)
qed

lemma keys_assign_cells:
  "fst ` set (assign_cells headers cells1) = set (take (length cells1) headers)"
proof -
  have "fst ` set (zip headers cells1) = set (map fst (zip headers cells1))" by simp
  also have "\<dots> = set (take (length cells1) headers)"
    by (simp only: map_fst_zip_take) (simp add: min_def take_all)
  finally show ?thesis by (simp add: assign_cells_def fold_update_keys)
qed

lemma fold_update_values:
  assumes "map_of (fold (\<lambda>(header, cell). AList.update header (f cell)) zs acc) k = Some v"
  shows "map_of acc k = Some v \<or> (\<exists>c. v = f c)"
  using assms
proof (induction zs arbitrary: acc)
  case Nil
  then show ?case by simp
next
  case (Cons z zs)
  obtain h c where z: "z = (h, c)" by (cases z)
  from Cons.prems have "map_of (AList.update h (f c) acc) k = Some v \<or> (\<exists>c. v = f c)"
    unfolding z by (intro Cons.IH) simp
  then show ?case
    by (auto simp: AList.update_conv' split: if_splits)
qed

lemma values_assign_cells:
  "map_of (assign_cells headers cells1) k = Some v \<Longrightarrow> \<exists>c. v = coerce c"
  unfolding assign_cells_def
  using fold_update_values [of "\<lambda>cell. coerce (strip cell)" "zip headers cells1" "[]" k v] by auto

lemma map_of_fill_missing:
  "map_of (fill_missing metadata_map game_data) k =
     (case map_of game_data k of
        Some v \<Rightarrow> Some v
      | None \<Rightarrow> if k \<in> unique ` snd ` set metadata_map then Some (PInt 0) else None)"
  unfolding fill_missing_def
proof (induction metadata_map arbitrary: game_data)
  case Nil
  then show ?case by (simp split: option.split)
next
  case (Cons e es)
  obtain key i where e: "e = (key, i)" by (cases e)
  show ?case
    unfolding e
    by (simp add: Cons.IH AList.update_conv' image_iff split: option.split)
qed

lemma keys_fill_missing:
  "fst ` set (fill_missing metadata_map game_data) =
     fst ` set game_data \<union> unique ` snd ` set metadata_map"
proof -
  have "k \<in> fst ` set (fill_missing metadata_map game_data)
        \<longleftrightarrow> k \<in> fst ` set game_data \<union> unique ` snd ` set metadata_map" for k
    using map_of_fill_missing [of metadata_map game_data k]
      map_of_eq_None_iff [of "fill_missing metadata_map game_data" k]
      map_of_eq_None_iff [of game_data k]
    by (auto split: option.splits if_splits)
  then show ?thesis by blast
qed

lemma week_value:
  assumes "map_of (fill_missing metadata_map (assign_cells headers cells1)) k = Some v"
    and "truthy v" and "str_isdigit v"
  shows "\<exists>n. v = PInt n \<and> 0 < n"
proof -
  from assms(1) have "v = PInt 0 \<or> (\<exists>c. v = coerce c)"
    using map_of_fill_missing [of metadata_map "assign_cells headers cells1" k]
      values_assign_cells [of headers cells1 k]
    by (auto split: option.splits if_splits)
  then show ?thesis
  proof
    assume "v = PInt 0"
    with assms(2) show ?thesis by simp
  next
    assume "\<exists>c. v = coerce c"
    then obtain c where c: "v = coerce c" ..
    from coerce_cases [of c] assms(2,3) show ?thesis
      unfolding c by (auto simp: isdigit_str_int)
  qed
qed

section \<open>Rows and records\<close>

lemma row_game_Some:
  assumes "row_game headers metadata_map row = Inr (Some g)"
  shows "\<exists>c0 cells1 week_val.
           tr_cells row = c0 # cells1 \<and> isdigit (strip c0)
           \<and> map_of (fill_missing metadata_map (assign_cells headers cells1)) ''Week'' = Some week_val
           \<and> truthy week_val \<and> str_isdigit week_val \<and> int_of week_val = Some (game_week g)
           \<and> game_stats g = fill_missing metadata_map (assign_cells headers cells1)"
  using assms unfolding row_game_def Let_def
  by (auto split: if_splits list.splits option.splits)

lemma row_game_total: "\<exists>r. row_game headers metadata_map row = Inr r"
proof (cases "tr_cells row")
  case Nil
  then show ?thesis by (simp add: row_game_def)
next
  case (Cons c0 cells1)
  have "int_of v \<noteq> None"
    if "map_of (fill_missing metadata_map (assign_cells headers cells1)) ''Week'' = Some v"
      "truthy v" "str_isdigit v" for v
    using week_value [OF that] by auto
  then show ?thesis
    unfolding row_game_def Let_def Cons
    by (auto split: option.splits)
qed

lemma extract_rows_closed:
  "extract_rows headers metadata_map games rows =
     Inr (games @ concat (map (\<lambda>r. case row_game headers metadata_map r of
                                       Inr (Some g) \<Rightarrow> [g] | _ \<Rightarrow> []) rows))"
proof (induction rows arbitrary: games)
  case Nil
  then show ?case by simp
next
  case (Cons row rows)
  obtain r where r: "row_game headers metadata_map row = Inr r"
    using row_game_total by blast
  show ?case
    by (cases r) (simp_all add: r Cons.IH)
qed









section \<open>Schema completeness\<close>

lemma canonical_headers_set:
  "set (fst (canonical_headers metadata_map col_pairs [] slog)) \<subseteq>
     unique ` snd ` set metadata_map
     \<union> {fallback_name cat col |cat col tp.
          (cat, col, tp) \<in> set col_pairs \<and> map_of metadata_map (cat, col) = None}"
proof
  fix h
  assume "h \<in> set (fst (canonical_headers metadata_map col_pairs [] slog))"
  then obtain cat col tp where p: "(cat, col, tp) \<in> set col_pairs"
    and h: "h = (case map_of metadata_map (cat, col) of
                   Some i \<Rightarrow> unique i | None \<Rightarrow> fallback_name cat col)"
    by (auto simp: canonical_headers_closed)
  show "h \<in> unique ` snd ` set metadata_map
     \<union> {fallback_name cat col |cat col tp.
          (cat, col, tp) \<in> set col_pairs \<and> map_of metadata_map (cat, col) = None}"
  proof (cases "map_of metadata_map (cat, col)")
    case None
    then have "h = fallback_name cat col" using h by simp
    then show ?thesis using p None by blast
  next
    case (Some i)
    then have "((cat, col), i) \<in> set metadata_map" by (rule map_of_SomeD)
    then have "unique i \<in> unique ` snd ` set metadata_map" by force
    then show ?thesis using h Some by simp
  qed
qed

lemma scrape_gamelog_games:
  assumes "snd (scrape_gamelog w url metadata_map slog) = Inr (Some games)"
  shows "\<exists>col_pairs rows.
           extract_rows (fst (canonical_headers metadata_map col_pairs [] slog)) metadata_map [] rows
             = Inr games"
  using assms unfolding scrape_gamelog_def Let_def
  by (auto split: sum.splits option.splits prod.splits if_splits) (metis fst_conv)

lemma extract_rows_member:
  assumes "extract_rows headers metadata_map [] rows = Inr games" and "g \<in> set games"
  shows "\<exists>row \<in> set rows. row_game headers metadata_map row = Inr (Some g)"
proof -
  from assms have "g \<in> set (concat (map (\<lambda>r. case row_game headers metadata_map r of
                                       Inr (Some g) \<Rightarrow> [g] | _ \<Rightarrow> []) rows))"
    by (simp add: extract_rows_closed)
  then obtain row where "row \<in> set rows"
    and "g \<in> set (case row_game headers metadata_map row of Inr (Some g) \<Rightarrow> [g] | _ \<Rightarrow> [])"
    by auto
  then show ?thesis
    by (auto split: sum.splits option.splits)
qed

lemma row_game_keys:
  assumes "row_game headers metadata_map row = Inr (Some g)"
  shows "fst ` set (game_stats g) =
           unique ` snd ` set metadata_map \<union> set (take (length (tr_cells row) - 1) headers)"
    and "u \<in> unique ` snd ` set metadata_map \<Longrightarrow>
           u \<notin> set (take (length (tr_cells row) - 1) headers) \<Longrightarrow>
           map_of (game_stats g) u = Some (PInt 0)"
proof -
  from row_game_Some [OF assms] obtain c0 cells1 where
    c: "tr_cells row = c0 # cells1"
    and s: "game_stats g = fill_missing metadata_map (assign_cells headers cells1)"
    by blast
  show "fst ` set (game_stats g) =
           unique ` snd ` set metadata_map \<union> set (take (length (tr_cells row) - 1) headers)"
    unfolding s c by (simp add: keys_fill_missing keys_assign_cells Un_commute)
  assume u: "u \<in> unique ` snd ` set metadata_map"
    and n: "u \<notin> set (take (length (tr_cells row) - 1) headers)"
  from n have "u \<notin> fst ` set (assign_cells headers cells1)"
    unfolding c by (simp add: keys_assign_cells)
  then have "map_of (assign_cells headers cells1) u = None"
    by (simp add: map_of_eq_None_iff)
  then show "map_of (game_stats g) u = Some (PInt 0)"
    unfolding s using u by (simp add: map_of_fill_missing)
qed

text \<open>
  Claim C6. Where a row of a document gives a record against the registry
  \<open>metadata_map\<close>, the keys of the record's stat mapping are the canonical names of the
  registry together with the headers that took a cell of the row; every canonical name
  of the registry is among them, and one that took no cell has the value 0; a key that
  is no canonical name of the registry is the fallback name of a header pair of the
  document that the registry does not know. The same holds of every record in the
  result of \<open>scrape_gamelog\<close>.
\<close>

theorem schema_complete:
  "(canonical_headers metadata_map col_pairs [] slog = (headers, slog')
      \<and> row_game headers metadata_map row = Inr (Some g) \<longrightarrow>
      unique ` snd ` set metadata_map \<subseteq> fst ` set (game_stats g)
      \<and> fst ` set (game_stats g) =
          unique ` snd ` set metadata_map \<union> set (take (length (tr_cells row) - 1) headers)
      \<and> (\<forall>u \<in> unique ` snd ` set metadata_map.
            u \<notin> set (take (length (tr_cells row) - 1) headers) \<longrightarrow>
            map_of (game_stats g) u = Some (PInt 0))
      \<and> fst ` set (game_stats g) \<subseteq>
          unique ` snd ` set metadata_map
          \<union> {fallback_name cat col |cat col tp.
               (cat, col, tp) \<in> set col_pairs \<and> map_of metadata_map (cat, col) = None})
   \<and> (snd (scrape_gamelog w url metadata_map slog) = Inr (Some games) \<and> g' \<in> set games \<longrightarrow>
        unique ` snd ` set metadata_map \<subseteq> fst ` set (game_stats g')
        \<and> fst ` set (game_stats g') \<subseteq>
            unique ` snd ` set metadata_map
            \<union> {fallback_name cat col |cat col. map_of metadata_map (cat, col) = None})"
proof (intro conjI impI)
  assume a: "canonical_headers metadata_map col_pairs [] slog = (headers, slog')
      \<and> row_game headers metadata_map row = Inr (Some g)"
  then have r: "row_game headers metadata_map row = Inr (Some g)"
    and h: "headers = fst (canonical_headers metadata_map col_pairs [] slog)" by simp_all
  note k = row_game_keys [OF r]
  show "unique ` snd ` set metadata_map \<subseteq> fst ` set (game_stats g)"
    unfolding k(1) by blast
  show "fst ` set (game_stats g) =
          unique ` snd ` set metadata_map \<union> set (take (length (tr_cells row) - 1) headers)"
    by (rule k(1))
  show "\<forall>u \<in> unique ` snd ` set metadata_map.
            u \<notin> set (take (length (tr_cells row) - 1) headers) \<longrightarrow>
            map_of (game_stats g) u = Some (PInt 0)"
    using k(2) by blast
  have "set (take (length (tr_cells row) - 1) headers) \<subseteq> set headers"
    by (rule set_take_subset)
  then show "fst ` set (game_stats g) \<subseteq>
          unique ` snd ` set metadata_map
          \<union> {fallback_name cat col |cat col tp.
               (cat, col, tp) \<in> set col_pairs \<and> map_of metadata_map (cat, col) = None}"
    unfolding k(1) using canonical_headers_set [of metadata_map col_pairs slog, folded h]
    by blast
next
  assume b: "snd (scrape_gamelog w url metadata_map slog) = Inr (Some games) \<and> g' \<in> set games"
  from scrape_gamelog_games [OF conjunct1 [OF b]] obtain col_pairs rows where
    e: "extract_rows (fst (canonical_headers metadata_map col_pairs [] slog)) metadata_map [] rows
          = Inr games" by blast
  from extract_rows_member [OF e conjunct2 [OF b]] obtain row where
    r: "row_game (fst (canonical_headers metadata_map col_pairs [] slog)) metadata_map row
          = Inr (Some g')" by blast
  note k = row_game_keys(1) [OF r]
  show "unique ` snd ` set metadata_map \<subseteq> fst ` set (game_stats g')"
    unfolding k by blast
  have "set (take (length (tr_cells row) - 1) (fst (canonical_headers metadata_map col_pairs [] slog)))
      \<subseteq> set (fst (canonical_headers metadata_map col_pairs [] slog))"
    by (rule set_take_subset)
  then show "fst ` set (game_stats g') \<subseteq>
            unique ` snd ` set metadata_map
            \<union> {fallback_name cat col |cat col. map_of metadata_map (cat, col) = None}"
    unfolding k using canonical_headers_set [of metadata_map col_pairs slog]
    by blast
qed

lemma qb_headers_rb:
  "canonical_headers rb_meta
     [([], ''Week'', ''Week''), (''Passing'', ''Yds'', ''Yards Gained by Passing''),
      (''Passing'', ''TD'', ''Passing Touchdowns'')] [] slog =
     (qb_fallback_headers,
      slog @ [''Passing,Yds:Passing_Yds | Yards Gained by Passing'',
              ''Passing,TD:Passing_TD | Passing Touchdowns''])"
  by (simp add: rb_meta_def qb_fallback_headers_def fallback_name_def strip_chars_def log_line_def)

lemma qb_cells_rb:
  "assign_cells qb_fallback_headers [''1'', ''258'', ''2''] =
      [(''Week'', PInt 1), (''Passing_Yds'', PInt 258), (''Passing_TD'', PInt 2)]"
  "assign_cells qb_fallback_headers [''2'', ''248'', ''1''] =
      [(''Week'', PInt 2), (''Passing_Yds'', PInt 248), (''Passing_TD'', PInt 1)]"
  by (simp_all add: assign_cells_def qb_fallback_headers_def string_evals)

lemma qb_filled_rb:
  "fill_missing rb_meta [(''Week'', PInt n), (''Passing_Yds'', PInt y), (''Passing_TD'', PInt t)] =
      [(''Week'', PInt n), (''Passing_Yds'', PInt y), (''Passing_TD'', PInt t),
       (''Rk'', PInt 0), (''Att'', PInt 0)]"
  by (simp add: fill_missing_def rb_meta_def)

lemma qb_fantasy_rb:
  "calc_fantasy [(''Week'', PInt n), (''Passing_Yds'', PInt y), (''Passing_TD'', PInt t),
       (''Rk'', PInt 0), (''Att'', PInt 0)] = \<lparr>standard = 0, half_ppr = 0, ppr = 0\<rparr>"
  by (simp add: calc_fantasy_def calc_fantasy_g_def py_round2_def)

lemma small_digits:
  "isdigit ''1''" "isdigit ''2''" "isdigit (str_int 1)" "isdigit (str_int 2)"
  "strip ''1'' = ''1''" "strip ''2'' = ''2''"
  by (simp_all add: string_evals)

lemma qb_row1_rb:
  "row_game qb_fallback_headers rb_meta (hd qb_rows) = Inr (Some (hd qb_games_rb))"
  by (simp add: qb_rows_def qb_games_rb_def row_game_def has_thead_class_def qb_cells_rb
      qb_filled_rb qb_fantasy_rb small_digits get_or_def team_of_def)

lemma qb_rows_rb:
  "extract_rows qb_fallback_headers rb_meta [] qb_rows = Inr qb_games_rb"
  by (simp add: qb_rows_def qb_games_rb_def row_game_def has_thead_class_def qb_cells_rb
      qb_filled_rb qb_fantasy_rb small_digits get_or_def team_of_def)

lemma qb_gamelog_rb:
  "scrape_gamelog site (BASE_URL @ ''/players/B/BradTo00/gamelog/2010/'') rb_meta slog =
     (slog @ [''Passing,Yds:Passing_Yds | Yards Gained by Passing'',
              ''Passing,TD:Passing_TD | Passing Touchdowns''],
      Inr (Some qb_games_rb))"
  by (simp add: scrape_gamelog_def site_brady_2010 page_def qb_table_def qb_over_headers
      qb_hrows_not_Nil qb_col_pairs qb_headers_rb qb_rows_rb del: canonical_headers.simps)

theorem schema_complete_witness:
  "canonical_headers rb_meta
     [([], ''Week'', ''Week''), (''Passing'', ''Yds'', ''Yards Gained by Passing''),
      (''Passing'', ''TD'', ''Passing Touchdowns'')] [] [] =
     (qb_fallback_headers,
      [''Passing,Yds:Passing_Yds | Yards Gained by Passing'',
       ''Passing,TD:Passing_TD | Passing Touchdowns''])
   \<and> row_game qb_fallback_headers rb_meta (hd qb_rows) = Inr (Some (hd qb_games_rb))
   \<and> snd (scrape_gamelog site (BASE_URL @ ''/players/B/BradTo00/gamelog/2010/'') rb_meta [])
       = Inr (Some qb_games_rb)
   \<and> hd qb_games_rb \<in> set qb_games_rb
   \<and> unique ` snd ` set rb_meta \<subseteq> fst ` set (game_stats (hd qb_games_rb))
   \<and> ''Att'' \<in> unique ` snd ` set rb_meta
   \<and> map_of (game_stats (hd qb_games_rb)) ''Att'' = Some (PInt 0)
   \<and> fst ` set (game_stats (hd qb_games_rb)) \<subseteq>
        unique ` snd ` set rb_meta
        \<union> {fallback_name cat col |cat col. map_of rb_meta (cat, col) = None}"
proof -
  have h: "canonical_headers rb_meta
     [([], ''Week'', ''Week''), (''Passing'', ''Yds'', ''Yards Gained by Passing''),
      (''Passing'', ''TD'', ''Passing Touchdowns'')] [] [] =
     (qb_fallback_headers,
      [''Passing,Yds:Passing_Yds | Yards Gained by Passing'',
       ''Passing,TD:Passing_TD | Passing Touchdowns''])"
    using qb_headers_rb [of "[]"] by simp
  note r = qb_row1_rb
  have s: "snd (scrape_gamelog site (BASE_URL @ ''/players/B/BradTo00/gamelog/2010/'') rb_meta [])
       = Inr (Some qb_games_rb)"
    by (simp add: qb_gamelog_rb)
  have m: "hd qb_games_rb \<in> set qb_games_rb" by (simp add: qb_games_rb_def)
  have a: "''Att'' \<in> unique ` snd ` set rb_meta" by (simp add: rb_meta_def)
  have n: "''Att'' \<notin> set (take (length (tr_cells (hd qb_rows)) - 1) qb_fallback_headers)"
    by (simp add: qb_rows_def qb_fallback_headers_def)
  show ?thesis
    using schema_complete [of rb_meta _ "[]" qb_fallback_headers _ "hd qb_rows" "hd qb_games_rb"
        site "BASE_URL @ ''/players/B/BradTo00/gamelog/2010/''" qb_games_rb "hd qb_games_rb"]
      h r s m a n
    by blast
qed

lemma rb_over_headers: "over_headers_of [] (butlast rb_hrows) = Inr [[], [], ''Rushing'']"
  by (simp add: rb_hrows_def hcell_def colspan_of_def string_evals numeral_2_eq_2)

lemma rb_col_pairs:
  "col_pairs_of [[], [], ''Rushing''] (last rb_hrows) =
     [([], ''Week'', ''Week''), (''Rushing'', ''Att'', ''Rushing Attempts'')]"
  by (simp add: rb_hrows_def hcell_def col_pairs_of_def enumerate_eq_zip cat_at_def tip_of_def
      string_evals upt_rec)

lemma rb_hrows_not_Nil: "rb_hrows \<noteq> []"
  by (simp add: rb_hrows_def)

lemma rb_headers:
  "canonical_headers rb_meta [([], ''Week'', ''Week''), (''Rushing'', ''Att'', ''Rushing Attempts'')] [] slog
     = ([''Week'', ''Att''], slog)"
  by (simp add: rb_meta_def)

lemma rb_rows_games: "extract_rows [''Week'', ''Att''] rb_meta [] rb_rows = Inr rb_games"
proof -
  have c: "assign_cells [''Week'', ''Att''] [''1'', ''21''] = [(''Week'', PInt 1), (''Att'', PInt 21)]"
    by (simp add: assign_cells_def string_evals)
  have f: "fill_missing rb_meta [(''Week'', PInt 1), (''Att'', PInt 21)] =
      [(''Week'', PInt 1), (''Att'', PInt 21), (''Rk'', PInt 0)]"
    by (simp add: fill_missing_def rb_meta_def)
  have s: "calc_fantasy [(''Week'', PInt 1), (''Att'', PInt 21), (''Rk'', PInt 0)] =
      \<lparr>standard = 0, half_ppr = 0, ppr = 0\<rparr>"
    by (simp add: calc_fantasy_def calc_fantasy_g_def py_round2_def)
  show ?thesis
    by (simp add: rb_rows_def rb_games_def row_game_def has_thead_class_def c f s small_digits
        get_or_def team_of_def)
qed

lemma rb_gamelog:
  "scrape_gamelog site (BASE_URL @ ''/players/J/JohnCh04/gamelog/2010/'') rb_meta slog =
     (slog, Inr (Some rb_games))"
  by (simp add: scrape_gamelog_def site_johnson_2010 page_def rb_table_def rb_over_headers
      rb_col_pairs rb_headers rb_rows_games rb_hrows_not_Nil del: canonical_headers.simps)

lemma johnson_links:
  "year_links_of [] [(''/players/J/JohnCh04/gamelog/2010/'', ''2010'')] =
     Inr [(2010, BASE_URL @ ''/players/J/JohnCh04/gamelog/2010/'')]"
  by (simp add: string_evals START_YEAR_def END_YEAR_def)

lemma brady_links:
  "year_links_of [] [(''/players/B/BradTo00/gamelog/2010/'', ''2010''),
                     (''/players/B/BradTo00/gamelog/2011/'', ''2011'')] =
     Inr [(2010, BASE_URL @ ''/players/B/BradTo00/gamelog/2010/''),
          (2011, BASE_URL @ ''/players/B/BradTo00/gamelog/2011/'')]"
  by (simp add: string_evals START_YEAR_def END_YEAR_def)

lemma brady_2011: "scrape_gamelog site (BASE_URL @ ''/players/B/BradTo00/gamelog/2011/'') m slog = (slog, Inl HTTPError)"
  by (simp add: scrape_gamelog_def site_brady_2011)


lemma brady_scraped:
  "''BradTo00'' \<notin> seen_players st \<Longrightarrow>
   scrape_player site ''BradTo00'' ''Tom Brady'' (BASE_URL @ ''/players/B/BradTo00.htm'') rb_meta st =
     (st\<lparr>seen_players := insert ''BradTo00'' (seen_players st),
         schema_log := schema_log st @ [''Passing,Yds:Passing_Yds | Yards Gained by Passing'',
              ''Passing,TD:Passing_TD | Passing Touchdowns'']\<rparr>, Inl HTTPError)"
  by (simp add: scrape_player_def site_brady page_def brady_links qb_gamelog_rb brady_2011
      str_int_def digit_of_def del: year_links_of.simps)

section \<open>Failures of a unit of work\<close>

lemma scrape_years_error:
  assumes "(y, u) \<in> set yl" and "snd (scrape_gamelog w u metadata_map []) = Inl e"
  shows "\<exists>e'. snd (scrape_years w metadata_map yl years slog) = Inl e'"
  using assms(1)
proof (induction yl arbitrary: years slog)
  case Nil
  then show ?case by simp
next
  case (Cons p yl)
  obtain y0 u0 where p: "p = (y0, u0)" by (cases p)
  obtain slog' r where g: "scrape_gamelog w u0 metadata_map slog = (slog', r)"
    by (cases "scrape_gamelog w u0 metadata_map slog")
  have r: "r = snd (scrape_gamelog w u0 metadata_map [])"
    using scrape_gamelog_appends [of w u0 metadata_map slog] g by simp
  show ?case
  proof (cases r)
    case (Inl e0)
    then show ?thesis by (simp add: p g)
  next
    case (Inr v)
    with r assms(2) have "(y, u) \<noteq> (y0, u0)" by auto
    with Cons.prems have "(y, u) \<in> set yl" by (auto simp: p)
    from Cons.IH [OF this] show ?thesis
      by (cases v) (simp_all add: p g Inr)
  qed
qed

lemma scrape_years_ok:
  assumes "\<forall>(y, u) \<in> set yl. \<exists>r. snd (scrape_gamelog w u metadata_map []) = Inr r"
  shows "\<exists>years'. snd (scrape_years w metadata_map yl years slog) = Inr years'
           \<and> fst ` set years' =
               fst ` set years
               \<union> {str_int y |y u. (y, u) \<in> set yl
                     \<and> (\<exists>games. snd (scrape_gamelog w u metadata_map []) = Inr (Some games))}"
  using assms
proof (induction yl arbitrary: years slog)
  case Nil
  then show ?case by simp
next
  case (Cons p yl)
  obtain y0 u0 where p: "p = (y0, u0)" by (cases p)
  obtain slog' r where g: "scrape_gamelog w u0 metadata_map slog = (slog', r)"
    by (cases "scrape_gamelog w u0 metadata_map slog")
  have r: "snd (scrape_gamelog w u0 metadata_map []) = r"
    using scrape_gamelog_appends [of w u0 metadata_map slog] g by simp
  from Cons.prems obtain v where v: "r = Inr v" by (auto simp: p r)
  have rest: "\<forall>(y, u) \<in> set yl. \<exists>r. snd (scrape_gamelog w u metadata_map []) = Inr r"
    using Cons.prems by simp
  show ?case
  proof (cases v)
    case None
    from Cons.IH [OF rest, of years slog'] obtain years' where
      y: "snd (scrape_years w metadata_map yl years slog') = Inr years'"
      "fst ` set years' = fst ` set years
         \<union> {str_int y |y u. (y, u) \<in> set yl
               \<and> (\<exists>games. snd (scrape_gamelog w u metadata_map []) = Inr (Some games))}"
      by blast
    have "{str_int y |y u. (y, u) \<in> set (p # yl)
               \<and> (\<exists>games. snd (scrape_gamelog w u metadata_map []) = Inr (Some games))}
        = {str_int y |y u. (y, u) \<in> set yl
               \<and> (\<exists>games. snd (scrape_gamelog w u metadata_map []) = Inr (Some games))}"
      using r v None by (auto simp: p)
    then show ?thesis
      using y by (simp add: p g v None)
  next
    case (Some games)
    from Cons.IH [OF rest, of "AList.update (str_int y0) games years" slog'] obtain years' where
      y: "snd (scrape_years w metadata_map yl (AList.update (str_int y0) games years) slog') = Inr years'"
      "fst ` set years' = fst ` set (AList.update (str_int y0) games years)
         \<union> {str_int y |y u. (y, u) \<in> set yl
               \<and> (\<exists>games. snd (scrape_gamelog w u metadata_map []) = Inr (Some games))}"
      by blast
    have "{str_int y |y u. (y, u) \<in> set (p # yl)
               \<and> (\<exists>games. snd (scrape_gamelog w u metadata_map []) = Inr (Some games))}
        = insert (str_int y0) {str_int y |y u. (y, u) \<in> set yl
               \<and> (\<exists>games. snd (scrape_gamelog w u metadata_map []) = Inr (Some games))}"
      using r v Some by (auto simp: p)
    then show ?thesis
      using y by (simp add: p g v Some AList.dom_update)
  qed
qed

lemma scrape_player_dumped:
  "dumped (fst (scrape_player w pid name url metadata_map st)) = dumped st"
  unfolding scrape_player_def Let_def
  by (simp split: sum.split nav.split prod.split)

lemma scrape_player_seen:
  "seen_players (fst (scrape_player w pid name url metadata_map st)) = insert pid (seen_players st)"
  unfolding scrape_player_def Let_def
  by (auto split: sum.split nav.split prod.split)

lemma scrape_player_links:
  assumes "pid \<notin> seen_players st" and "w url = Inr sp" and "inner_nav sp = Links links"
    and "year_links_of [] links = Inr year_links"
  shows "snd (scrape_player w pid name url metadata_map st) =
           (case snd (scrape_years w metadata_map (sort_key fst year_links) [] (schema_log st)) of
              Inl e \<Rightarrow> Inl e
            | Inr years \<Rightarrow> Inr (Some \<lparr>pd_name = name, pd_id = pid, pd_years = years\<rparr>))"
  unfolding scrape_player_def Let_def using assms
  by (simp split: sum.split prod.split)

lemma scrape_wrapper_raised:
  assumes "snd (scrape_player w pid name url metadata_map st) = Inl e"
  shows "snd (scrape_wrapper w (pid, name, url, metadata_map) st) = None
         \<and> dumped (fst (scrape_wrapper w (pid, name, url, metadata_map) st)) = dumped st"
  using assms scrape_player_dumped [of w pid name url metadata_map st]
  unfolding scrape_wrapper_def by (auto split: prod.splits sum.splits option.splits)

lemma scrape_wrapper_returned:
  assumes "snd (scrape_player w pid name url metadata_map st) = Inr (Some pdata)"
  shows "snd (scrape_wrapper w (pid, name, url, metadata_map) st) = Some pdata
         \<and> dumped (fst (scrape_wrapper w (pid, name, url, metadata_map) st)) = dumped st @ [(pid, pdata)]"
  using assms scrape_player_dumped [of w pid name url metadata_map st]
  unfolding scrape_wrapper_def by (auto split: prod.splits sum.splits option.splits)

lemma pool_map_length: "length (snd (pool_map w p tasks)) = length tasks"
proof (induction tasks arbitrary: p)
  case Nil
  then show ?case by simp
next
  case (Cons t tasks)
  obtain k args where t: "t = (k, args)" by (cases t)
  obtain st' r where s: "scrape_wrapper w args
      \<lparr>seen_players = pool_seen p k, schema_log = pool_log p, dumped = pool_dumped p\<rparr> = (st', r)"
    by (cases "scrape_wrapper w args
      \<lparr>seen_players = pool_seen p k, schema_log = pool_log p, dumped = pool_dumped p\<rparr>")
  show ?case
    using Cons.IH [of "\<lparr>pool_seen = (pool_seen p)(k := seen_players st'),
                       pool_log = schema_log st', pool_dumped = dumped st'\<rparr>"]
    by (auto simp: t s split: prod.splits)
qed

text \<open>
  Claim C3, as stated, fails. The quarterback's unit has the years 2010 and 2011. The
  game log of 2010 is fetched and normalized; the fetch of 2011 raises. The wrapper
  returns \<open>None\<close> and writes no file: the year that completed is not persisted.
\<close>

theorem later_year_failure_discards_record:
  "snd (scrape_gamelog site (BASE_URL @ ''/players/B/BradTo00/gamelog/2010/'') rb_meta []) =
     Inr (Some qb_games_rb)
   \<and> snd (scrape_gamelog site (BASE_URL @ ''/players/B/BradTo00/gamelog/2011/'') rb_meta []) =
       Inl HTTPError
   \<and> snd (scrape_wrapper site brady_task fresh) = None
   \<and> dumped (fst (scrape_wrapper site brady_task fresh)) = []"
  by (simp add: qb_gamelog_rb brady_2011 scrape_wrapper_def brady_task_def brady_scraped fresh_def)

text \<open>
  Claim C3, amended. Every failure of a unit is contained at the unit boundary: when
  \<open>scrape_player\<close> raises, \<open>scrape_wrapper\<close> returns \<open>None\<close> and persists nothing for
  that player, and the pool still returns one result for every unit. A year whose page
  has no stats table is skipped, and when no year raises the PlayerRecord is persisted
  with exactly the years whose page gave games. A year that raises (a fetch error)
  fails the whole unit: nothing is persisted for the player, whatever years completed
  before.
\<close>

theorem unit_failure_contained:
  "(snd (scrape_player w pid name url metadata_map st) = Inl e \<longrightarrow>
      snd (scrape_wrapper w (pid, name, url, metadata_map) st) = None
      \<and> dumped (fst (scrape_wrapper w (pid, name, url, metadata_map) st)) = dumped st)
   \<and> length (snd (pool_map w p tasks)) = length tasks
   \<and> (pid \<notin> seen_players st \<and> w url = Inr sp \<and> inner_nav sp = Links links
        \<and> year_links_of [] links = Inr year_links \<longrightarrow>
        ((\<exists>(y, u) \<in> set year_links. \<exists>e'. snd (scrape_gamelog w u metadata_map []) = Inl e') \<longrightarrow>
           snd (scrape_wrapper w (pid, name, url, metadata_map) st) = None
           \<and> dumped (fst (scrape_wrapper w (pid, name, url, metadata_map) st)) = dumped st)
        \<and> ((\<forall>(y, u) \<in> set year_links. \<exists>r. snd (scrape_gamelog w u metadata_map []) = Inr r) \<longrightarrow>
             (\<exists>pdata. snd (scrape_wrapper w (pid, name, url, metadata_map) st) = Some pdata
                \<and> dumped (fst (scrape_wrapper w (pid, name, url, metadata_map) st))
                    = dumped st @ [(pid, pdata)]
                \<and> pd_id pdata = pid \<and> pd_name pdata = name
                \<and> fst ` set (pd_years pdata) =
                    {str_int y |y u. (y, u) \<in> set year_links
                       \<and> (\<exists>games. snd (scrape_gamelog w u metadata_map []) = Inr (Some games))})))"
proof (intro conjI impI)
  assume "snd (scrape_player w pid name url metadata_map st) = Inl e"
  from scrape_wrapper_raised [OF this]
  show "snd (scrape_wrapper w (pid, name, url, metadata_map) st) = None"
    and "dumped (fst (scrape_wrapper w (pid, name, url, metadata_map) st)) = dumped st"
    by simp_all
next
  show "length (snd (pool_map w p tasks)) = length tasks" by (rule pool_map_length)
next
  assume a: "pid \<notin> seen_players st \<and> w url = Inr sp \<and> inner_nav sp = Links links
        \<and> year_links_of [] links = Inr year_links"
  then have sp: "snd (scrape_player w pid name url metadata_map st) =
           (case snd (scrape_years w metadata_map (sort_key fst year_links) [] (schema_log st)) of
              Inl e \<Rightarrow> Inl e
            | Inr years \<Rightarrow> Inr (Some \<lparr>pd_name = name, pd_id = pid, pd_years = years\<rparr>))"
    using scrape_player_links [of pid st w url sp links year_links name metadata_map] by blast
  {
    assume "\<exists>(y, u) \<in> set year_links. \<exists>e'. snd (scrape_gamelog w u metadata_map []) = Inl e'"
    then obtain y u e' where "(y, u) \<in> set (sort_key fst year_links)"
      "snd (scrape_gamelog w u metadata_map []) = Inl e'" by auto
    from scrape_years_error [OF this, of "[]" "schema_log st"] obtain e'' where
      "snd (scrape_years w metadata_map (sort_key fst year_links) [] (schema_log st)) = Inl e''"
      by blast
    then have "snd (scrape_player w pid name url metadata_map st) = Inl e''"
      using sp by simp
    from scrape_wrapper_raised [OF this]
    show "snd (scrape_wrapper w (pid, name, url, metadata_map) st) = None"
      and "dumped (fst (scrape_wrapper w (pid, name, url, metadata_map) st)) = dumped st"
      by simp_all
  }
  {
    assume "\<forall>(y, u) \<in> set year_links. \<exists>r. snd (scrape_gamelog w u metadata_map []) = Inr r"
    then have "\<forall>(y, u) \<in> set (sort_key fst year_links).
        \<exists>r. snd (scrape_gamelog w u metadata_map []) = Inr r" by simp
    from scrape_years_ok [OF this, of "[]" "schema_log st"] obtain years' where
      y: "snd (scrape_years w metadata_map (sort_key fst year_links) [] (schema_log st)) = Inr years'"
      and k: "fst ` set years' =
           {str_int y |y u. (y, u) \<in> set year_links
              \<and> (\<exists>games. snd (scrape_gamelog w u metadata_map []) = Inr (Some games))}"
      by auto
    have "snd (scrape_player w pid name url metadata_map st) =
        Inr (Some \<lparr>pd_name = name, pd_id = pid, pd_years = years'\<rparr>)"
      using sp y by simp
    from scrape_wrapper_returned [OF this] k
    show "\<exists>pdata. snd (scrape_wrapper w (pid, name, url, metadata_map) st) = Some pdata
                \<and> dumped (fst (scrape_wrapper w (pid, name, url, metadata_map) st))
                    = dumped st @ [(pid, pdata)]
                \<and> pd_id pdata = pid \<and> pd_name pdata = name
                \<and> fst ` set (pd_years pdata) =
                    {str_int y |y u. (y, u) \<in> set year_links
                       \<and> (\<exists>games. snd (scrape_gamelog w u metadata_map []) = Inr (Some games))}"
      by simp
  }
qed

theorem unit_failure_contained_witness:
  "snd (scrape_wrapper site brady_task fresh) = None
   \<and> dumped (fst (scrape_wrapper site brady_task fresh)) = []
   \<and> (\<exists>pdata. snd (scrape_wrapper site johnson_task fresh) = Some pdata
        \<and> dumped (fst (scrape_wrapper site johnson_task fresh)) = [(''JohnCh04'', pdata)]
        \<and> pd_id pdata = ''JohnCh04''
        \<and> fst ` set (pd_years pdata) = {''2010''})"
proof -
  have f: "''BradTo00'' \<notin> seen_players fresh" "''JohnCh04'' \<notin> seen_players fresh" "dumped fresh = []"
    by (simp_all add: fresh_def)
  have b: "\<exists>(y, u) \<in> set [(2010, BASE_URL @ ''/players/B/BradTo00/gamelog/2010/''),
          (2011 :: int, BASE_URL @ ''/players/B/BradTo00/gamelog/2011/'')].
        \<exists>e'. snd (scrape_gamelog site u rb_meta []) = Inl e'"
    by (simp add: brady_2011)
  have j: "\<forall>(y, u) \<in> set [(2010 :: int, BASE_URL @ ''/players/J/JohnCh04/gamelog/2010/'')].
        \<exists>r. snd (scrape_gamelog site u rb_meta []) = Inr r"
    by (simp add: rb_gamelog)
  have k: "{str_int y |y u. (y, u) \<in> set [(2010 :: int, BASE_URL @ ''/players/J/JohnCh04/gamelog/2010/'')]
      \<and> (\<exists>games. snd (scrape_gamelog site u rb_meta []) = Inr (Some games))} = {''2010''}"
    by (auto simp: rb_gamelog str_int_def digit_of_def)
  have i: "inner_nav (page\<lparr>inner_nav := Links ls\<rparr>) = Links ls" for ls
    by simp
  show ?thesis
    using unit_failure_contained [of site "''BradTo00''" "''Tom Brady''"
        "BASE_URL @ ''/players/B/BradTo00.htm''" rb_meta fresh _ _ _ _ _ _,
        THEN conjunct2, THEN conjunct2, THEN mp, OF conjI [OF f(1) conjI [OF site_brady conjI [OF i brady_links]]],
        THEN conjunct1, THEN mp, OF b]
      unit_failure_contained [of site "''JohnCh04''" "''Chris Johnson''"
        "BASE_URL @ ''/players/J/JohnCh04.htm''" rb_meta fresh _ _ _ _ _ _,
        THEN conjunct2, THEN conjunct2, THEN mp, OF conjI [OF f(2) conjI [OF site_johnson conjI [OF i johnson_links]]],
        THEN conjunct2, THEN mp, OF j]
    unfolding k f(3) brady_task_def [symmetric] johnson_task_def [symmetric]
    by auto
qed

section \<open>Deduplication of players\<close>


lemma append_players_unpack:
  "append_players metadata_map all_players players = Inr all_players' \<Longrightarrow>
     players = [] \<and> all_players' = all_players"
  by (cases players) (simp_all add: unpack4_def)

lemma gather_players_unpack:
  "gather_players w metadata_map all_players years = Inr all_players' \<Longrightarrow> all_players' = all_players"
proof (induction years arbitrary: all_players)
  case Nil
  then show ?case by simp
next
  case (Cons year years)
  then show ?case
    by (auto split: sum.splits dest!: append_players_unpack)
qed

text \<open>
  \<open>main\<close> of \<open>scrape_parallel.py\<close> dispatches nothing: a year that lists a player ends
  it with \<open>ValueError\<close>, so a run that reaches the pool has no unit of work.
\<close>

lemma main_dispatches_nothing:
  assumes "snd (main w cpus choice st) = Inr results"
  shows "results = []"
proof -
  have "pool_map w p (zip (map f [0..<length ([] :: task list)]) []) = (p, [])" for p f
    by simp
  with assms show ?thesis
    unfolding main_def Let_def
    by (auto split: prod.splits sum.splits if_splits dest!: gather_players_unpack)
qed

text \<open>
  In one process the set \<open>seen_players\<close> does its work: the script of
  \<open>fantasy_data_scrape.py\<close> writes the file of a player at most once.
\<close>

lemma scrape_listed_once:
  "dumped_once st \<Longrightarrow> dumped_once (fst (scrape_listed w metadata_map players st))"
proof (induction players arbitrary: st)
  case Nil
  then show ?case by simp
next
  case (Cons p players)
  obtain pid name url where p: "p = (pid, name, url)" by (cases p)
  show ?case
  proof (cases "pid \<in> seen_players st")
    case True
    then show ?thesis using Cons by (simp add: p)
  next
    case False
    obtain st' r where s: "scrape_player w pid name url metadata_map st = (st', r)"
      by (cases "scrape_player w pid name url metadata_map st")
    have d: "dumped st' = dumped st" and n: "seen_players st' = insert pid (seen_players st)"
      using scrape_player_dumped [of w pid name url metadata_map st]
        scrape_player_seen [of w pid name url metadata_map st] s by simp_all
    have a: "dumped_once st'"
      using Cons.prems d n by (auto simp: dumped_once_def)
    have b: "dumped_once (st'\<lparr>dumped := dumped st' @ [(pid, pdata)]\<rparr>)" for pdata
      using Cons.prems d n False by (auto simp: dumped_once_def)
    show ?thesis
      using False s a Cons.IH [OF a] Cons.IH [OF b]
      by (auto simp: p split: sum.splits option.splits)
  qed
qed

lemma scrape_all_years_once:
  "dumped_once st \<Longrightarrow> dumped_once (fst (scrape_all_years w metadata_map years st))"
proof (induction years arbitrary: st)
  case Nil
  then show ?case by simp
next
  case (Cons year years)
  show ?case
  proof (cases "get_players_for_year w year")
    case (Inl e)
    then show ?thesis using Cons.prems by simp
  next
    case (Inr players)
    obtain st' r where s: "scrape_listed w metadata_map players st = (st', r)"
      by (cases "scrape_listed w metadata_map players st")
    have "dumped_once st'"
      using scrape_listed_once [OF Cons.prems, of w metadata_map players] s by simp
    from Cons.IH [OF this] Cons.prems s show ?thesis
      using \<open>dumped_once st'\<close> by (auto simp: Inr split: sum.splits)
  qed
qed

lemma script_main_once:
  assumes "dumped_once st"
  shows "distinct (map fst (dumped (fst (script_main w st))))"
proof -
  have "dumped_once (st\<lparr>schema_log := slog\<rparr>)" for slog
    using assms by (simp add: dumped_once_def)
  then have "dumped_once (fst (script_main w st))"
    unfolding script_main_def
    by (auto split: prod.splits sum.splits intro: scrape_all_years_once)
  then show ?thesis by (simp add: dumped_once_def)
qed


end
